theory Spec2Isabelle
  imports Complex_Main "HOL-Library.Sublist" "HOL-Library.Log_Nat"
begin

section \<open>Strings\<close>

text \<open>
  JavaScript strings are modelled as \<open>string\<close> (a list of 8-bit characters), and the
  string methods the code calls are modelled on their ASCII behaviour:
  \<open>toLowerCase\<close> maps \<open>A\<close>..\<open>Z\<close> to \<open>a\<close>..\<open>z\<close> and leaves every other character alone,
  \<open>trim\<close> strips the ASCII white space characters (tab, line feed, vertical tab, form feed,
  carriage return, space) from both ends. Text outside ASCII (where JavaScript lower-cases
  further letters and trims further spaces) is outside the model.
\<close>

definition toLowerChar :: "char \<Rightarrow> char" where
  "toLowerChar c =
     (case map_of (zip ''ABCDEFGHIJKLMNOPQRSTUVWXYZ'' ''abcdefghijklmnopqrstuvwxyz'') c of
        Some l \<Rightarrow> l
      | None \<Rightarrow> c)"

definition toLowerCase :: "string \<Rightarrow> string" where
  "toLowerCase s = map toLowerChar s"

definition isWhiteSpace :: "char \<Rightarrow> bool" where
  "isWhiteSpace c = (c \<in> set [CHR 0x09, CHR 0x0A, CHR 0x0B, CHR 0x0C, CHR 0x0D, CHR 0x20])"

definition trim :: "string \<Rightarrow> string" where
  "trim s = rev (dropWhile isWhiteSpace (rev (dropWhile isWhiteSpace s)))"

text \<open>
  \<open>s.includes(k)\<close>: does \<open>k\<close> occur in \<open>s\<close> as a
  contiguous substring.
\<close>

fun includes_str :: "string \<Rightarrow> string \<Rightarrow> bool" where
  "includes_str [] k = (k = [])"
| "includes_str (c # cs) k = (prefix k (c # cs) \<or> includes_str cs k)"

text \<open>\<open>s.split(',')[0]\<close>: the text before the first comma.\<close>

definition split_comma_first :: "string \<Rightarrow> string" where
  "split_comma_first s = takeWhile (\<lambda>c. c \<noteq> CHR '','') s"

text \<open>
  An attribute that may be missing is a \<open>string option\<close>; \<open>None\<close> stands for
  \<open>undefined\<close> and \<open>null\<close>. In a boolean position a string counts as true exactly when it
  is present and not empty, and \<open>x || d\<close> is \<open>x\<close> then, and \<open>d\<close> otherwise.
\<close>

definition truthy :: "string option \<Rightarrow> bool" where
  "truthy x = (case x of None \<Rightarrow> False | Some s \<Rightarrow> s \<noteq> [])"

definition or_else :: "string option \<Rightarrow> string \<Rightarrow> string" where
  "or_else x d = (case x of None \<Rightarrow> d | Some s \<Rightarrow> if s = [] then d else s)"

section \<open>Raw records\<close>

text \<open>
  The attribute bag of a raw group. One record type carries every attribute that the
  proxy or the client reads or writes; an attribute that a given object does not have is
  \<open>None\<close>. The attributes \<open>name\<close>, \<open>description\<close>, \<open>location\<close> and \<open>address\<close> carry the
  suffix \<open>_attr\<close>, because the processed group record below has fields of the same names.
\<close>

record attrs =
  name_attr :: "string option"
  description_attr :: "string option"
  location_type_preference :: "string option"
  location_attr :: "string option"
  contact_info :: "string option"
  church_center_url_location :: "string option"
  address_attr :: "string option"
  meeting_location :: "string option"
  schedule :: "string option"
  contact_email :: "string option"
  public_church_center_web_url :: "string option"
  public_url :: "string option"
  memberships_count :: "nat option"
  archived :: "bool option"
  updated_at :: "string option"
  group_type :: "string option"
  enrollment :: "string option"

text \<open>
  The empty object \<open>{}\<close>, which \<open>group.attributes || {}\<close> yields for a
  group without attributes.
\<close>

definition empty_attrs :: attrs where
  "empty_attrs = \<lparr> name_attr = None, description_attr = None, location_type_preference = None,
     location_attr = None, contact_info = None, church_center_url_location = None,
     address_attr = None, meeting_location = None, schedule = None, contact_email = None,
     public_church_center_web_url = None, public_url = None, memberships_count = None,
     archived = None, updated_at = None, group_type = None, enrollment = None \<rparr>"

record raw_group =
  raw_id :: string
  attributes :: "attrs option"

definition attributes_or_empty :: "raw_group \<Rightarrow> attrs" where
  "attributes_or_empty g = (case attributes g of None \<Rightarrow> empty_attrs | Some a \<Rightarrow> a)"

section \<open>Group classifier\<close>

datatype groupType_t = community | affinity

definition affinityKeywords :: "string list" where
  "affinityKeywords =
     [''young adult'', ''ya'', ''professional'', ''graduate'', ''student'',
      ''women'', ''men'', ''lgbtq'', ''queer'', ''people of color'', ''poc'',
      ''parents'', ''family'', ''seniors'', ''older adult'', ''creative'',
      ''artist'', ''musician'', ''book'', ''hiking'', ''outdoors'']"

text \<open>
  \<open>determineGroupType\<close> of the client (planning-center.js, lines 406 to 424).
\<close>

definition determineGroupType :: "attrs \<Rightarrow> groupType_t" where
  "determineGroupType a =
     (let name = toLowerCase (or_else (name_attr a) '''');
          description = toLowerCase (or_else (description_attr a) '''');
          isAffinity = list_ex (\<lambda>keyword. includes_str name keyword \<or> includes_str description keyword)
                         affinityKeywords
      in if isAffinity then affinity else community)"

section \<open>Numbers, randomness and errors\<close>

text \<open>
  A JavaScript number is an IEEE 754 binary64 value. A finite double is modelled by the real
  number it denotes, and an arithmetic operation by the exact operation on the reals followed
  by \<open>round64\<close>, the rounding to the nearest double with ties to the even significand, which
  is how IEEE 754 defines the operations. A numeric literal of the source denotes the double
  nearest to its decimal value (\<open>js_number\<close>). Overflow to \<open>Infinity\<close> is not modelled: the
  rounding is the one of the doubles for magnitudes below \<open>2 ^ 1024\<close>, which covers every
  number this code computes from coordinates and draws.
\<close>

text \<open>Rounding a real to the nearest integer, ties to the even one.\<close>

definition round_half_even :: "real \<Rightarrow> int" where
  "round_half_even y =
     (let n = \<lfloor>y\<rfloor>; f = y - of_int n
      in if f < 1 / 2 then n else if 1 / 2 < f then n + 1 else if even n then n else n + 1)"

text \<open>
  The binary exponent of a non-zero real \<open>x\<close>: the integer \<open>e\<close> with
  \<open>2 ^ e \<le> \<bar>x\<bar> < 2 ^ (e + 1)\<close>, computed from the bit length of an integer part.
\<close>

definition exponent_of :: "real \<Rightarrow> int" where
  "exponent_of x =
     (let a = \<bar>x\<bar>
      in if 1 \<le> a then bitlen \<lfloor>a\<rfloor> - 1
         else (let b = bitlen \<lfloor>1 / a\<rfloor> in if a = 2 powi (1 - b) then 1 - b else - b))"

text \<open>
  The nearest double: a multiple of the spacing \<open>2 ^ (e - 52)\<close> of the doubles with
  exponent \<open>e\<close>, where the exponent is at least -1022 (below it the doubles are subnormal
  and keep the spacing \<open>2 ^ -1074\<close>).
\<close>

definition round64 :: "real \<Rightarrow> real" where
  "round64 x =
     (if x = 0 then 0
      else (let q = 2 powi (max (exponent_of x) (- 1022) - 52)
            in of_int (round_half_even (x / q)) * q))"

definition js_number :: "real \<Rightarrow> real" where
  "js_number x = round64 x"

definition fl_add :: "real \<Rightarrow> real \<Rightarrow> real" where
  "fl_add x y = round64 (x + y)"

definition fl_sub :: "real \<Rightarrow> real \<Rightarrow> real" where
  "fl_sub x y = round64 (x - y)"

definition fl_mul :: "real \<Rightarrow> real \<Rightarrow> real" where
  "fl_mul x y = round64 (x * y)"

text \<open>
  A coordinate is a pair (latitude, longitude) of doubles.
  \<open>Math.random()\<close> is modelled by a sequence \<open>rs\<close> of draws supplied from outside and a
  position \<open>n\<close> in it: a call returns \<open>rs n\<close> and moves the position to \<open>n + 1\<close>.
  JavaScript promises every draw to lie in the half-open interval from 0 to 1.
\<close>

type_synonym coords = "real \<times> real"

type_synonym random_source = "nat \<Rightarrow> real"

definition valid_random :: "random_source \<Rightarrow> bool" where
  "valid_random rs = (\<forall>i. 0 \<le> rs i \<and> rs i < 1)"


text \<open>
  The source in which every draw is zero, so that every jitter offset is the lowest one.
\<close>

definition zero_draws :: random_source where
  "zero_draws = (\<lambda>i. 0)"


text \<open>
  The exceptions of the code: \<open>TypeError\<close> is raised by the runtime, the others are the
  failures of a \<open>fetch\<close> (the request is rejected, the status is not OK, the body is not JSON,
  the body carries an \<open>error\<close> field).
\<close>

datatype js_error = TypeError | NetworkError | HttpError | SyntaxError | ProxyError

section \<open>Privacy fuzzer\<close>

text \<open>
  \<open>addRandomOffset\<close> (planning-center.js, lines 525 to 537): two draws, latitude
  first.
\<close>

definition addRandomOffset :: "coords \<Rightarrow> random_source \<Rightarrow> nat \<Rightarrow> coords \<times> nat" where
  "addRandomOffset c rs n =
     (let (lat, lng) = c;
          latOffset = fl_mul (fl_sub (rs n) (js_number 0.5)) (js_number 0.0072);
          lngOffset = fl_mul (fl_sub (rs (n + 1)) (js_number 0.5)) (js_number 0.0072)
      in ((fl_add lat latOffset, fl_add lng lngOffset), n + 2))"

text \<open>
  The expression \<open>(Math.random() - 0.5) * 0.0072\<close> of lines 531 and 532 as a function of
  the draw: the subtraction and the multiplication each round.
\<close>

definition jitter_offset :: "real \<Rightarrow> real" where
  "jitter_offset r = fl_mul (fl_sub r (js_number 0.5)) (js_number 0.0072)"

section \<open>Gazetteer and geocoding\<close>

text \<open>
  The object literal \<open>dmvLocations\<close>, as the list of its entries in the order in which
  \<open>Object.entries\<close> enumerates them (the order of the literal: no key is an array index).
\<close>

definition dmvLocations :: "(string \<times> coords) list" where
  "dmvLocations =
     [(''dupont circle'', (js_number 38.9097, js_number (-77.0365))),
      (''dupont'', (js_number 38.9097, js_number (-77.0365))),
      (''adams morgan'', (js_number 38.9220, js_number (-77.0420))),
      (''capitol hill'', (js_number 38.8903, js_number (-76.9901))),
      (''columbia heights'', (js_number 38.9289, js_number (-77.0353))),
      (''shaw'', (js_number 38.9129, js_number (-77.0218))),
      (''petworth'', (js_number 38.9369, js_number (-77.0249))),
      (''brookland'', (js_number 38.9339, js_number (-76.9956))),
      (''anacostia'', (js_number 38.8622, js_number (-76.9810))),
      (''foggy bottom'', (js_number 38.9006, js_number (-77.0472))),
      (''georgetown'', (js_number 38.9076, js_number (-77.0723))),
      (''logan circle'', (js_number 38.9095, js_number (-77.0292))),
      (''u street'', (js_number 38.9169, js_number (-77.0281))),
      (''h street'', (js_number 38.8998, js_number (-76.9951))),
      (''navy yard'', (js_number 38.8762, js_number (-77.0065))),
      (''downtown'', (js_number 38.8951, js_number (-77.0364))),
      (''chinatown'', (js_number 38.8998, js_number (-77.0218))),
      (''washington dc'', (js_number 38.9072, js_number (-77.0369))),
      (''washington'', (js_number 38.9072, js_number (-77.0369))),
      (''dc'', (js_number 38.9072, js_number (-77.0369))),
      (''arlington'', (js_number 38.8816, js_number (-77.0910))),
      (''alexandria'', (js_number 38.8048, js_number (-77.0469))),
      (''fairfax'', (js_number 38.8462, js_number (-77.3064))),
      (''vienna'', (js_number 38.9012, js_number (-77.2653))),
      (''reston'', (js_number 38.9687, js_number (-77.3411))),
      (''sterling'', (js_number 39.0068, js_number (-77.4286))),
      (''annandale'', (js_number 38.8304, js_number (-77.1963))),
      (''falls church'', (js_number 38.8823, js_number (-77.1711))),
      (''tysons'', (js_number 38.9188, js_number (-77.2297))),
      (''leesburg'', (js_number 39.1156, js_number (-77.5636))),
      (''herndon'', (js_number 38.9696, js_number (-77.3861))),
      (''mclean'', (js_number 38.9338, js_number (-77.1775))),
      (''springfield'', (js_number 38.7893, js_number (-77.1872))),
      (''burke'', (js_number 38.7932, js_number (-77.2719))),
      (''woodbridge'', (js_number 38.6581, js_number (-77.2497))),
      (''manassas'', (js_number 38.7509, js_number (-77.4753))),
      (''bethesda'', (js_number 38.9807, js_number (-77.1010))),
      (''rockville'', (js_number 39.0840, js_number (-77.1528))),
      (''silver spring'', (js_number 38.9907, js_number (-77.0261))),
      (''takoma park'', (js_number 38.9779, js_number (-77.0074))),
      (''college park'', (js_number 38.9897, js_number (-76.9378))),
      (''hyattsville'', (js_number 38.9551, js_number (-76.9455))),
      (''gaithersburg'', (js_number 39.1434, js_number (-77.2014))),
      (''germantown'', (js_number 39.1712, js_number (-77.2717))),
      (''wheaton'', (js_number 39.0370, js_number (-77.0558))),
      (''kensington'', (js_number 39.0273, js_number (-77.0764))),
      (''chevy chase'', (js_number 38.9851, js_number (-77.0872))),
      (''potomac'', (js_number 39.0223, js_number (-77.2086))),
      (''bowie'', (js_number 38.9426, js_number (-76.7302))),
      (''laurel'', (js_number 39.0993, js_number (-76.8483))),
      (''greenbelt'', (js_number 38.9912, js_number (-76.8756))),
      (''riverdale'', (js_number 38.9584, js_number (-76.9119)))]"

text \<open>
  \<open>dmvLocations\<close> is a plain object, so \<open>dmvLocations[location]\<close> also finds the properties
  that every object inherits from \<open>Object.prototype\<close>. These are their names. The value found
  under such a name is a function or an object: it counts as true, and it is not an array.
\<close>

definition object_prototype_properties :: "string list" where
  "object_prototype_properties =
     [''constructor'', ''__defineGetter__'', ''__defineSetter__'', ''hasOwnProperty'',
      ''__lookupGetter__'', ''__lookupSetter__'', ''isPrototypeOf'', ''propertyIsEnumerable'',
      ''toString'', ''valueOf'', ''__proto__'', ''toLocaleString'']"

text \<open>
  \<open>geocodeLocation\<close> (planning-center.js, lines 427 to 522). The exact match reads
  \<open>dmvLocations[location]\<close>: an own entry is passed to \<open>addRandomOffset\<close>; an inherited
  property is passed to it as well, where the array destructuring \<open>const [lat, lng] = coords\<close>
  raises \<open>TypeError\<close>, the value not being iterable.
\<close>

definition geocodeLocation :: "string \<Rightarrow> random_source \<Rightarrow> nat \<Rightarrow> js_error + (coords \<times> nat)" where
  "geocodeLocation locationString rs n =
     (let location = trim (toLowerCase locationString) in
      case map_of dmvLocations location of
        Some coords \<Rightarrow> Inr (addRandomOffset coords rs n)
      | None \<Rightarrow>
          if location \<in> set object_prototype_properties then Inl TypeError
          else
            (case find (\<lambda>(place, coords). includes_str location place \<or> includes_str place location)
                    dmvLocations of
               Some (place, coords) \<Rightarrow> Inr (addRandomOffset coords rs n)
             | None \<Rightarrow>
                 if includes_str location ''virginia'' \<or> includes_str location ''va''
                 then Inr (addRandomOffset (js_number 38.8816, js_number (-77.0910)) rs n)
                 else if includes_str location ''maryland'' \<or> includes_str location ''md''
                 then Inr (addRandomOffset (js_number 38.9907, js_number (-77.0261)) rs n)
                 else Inr (addRandomOffset (js_number 38.9072, js_number (-77.0369)) rs n)))"

text \<open>
  The point that \<open>geocodeLocation\<close> passes to \<open>addRandomOffset\<close>, its anchor: the four steps
  of the function without the call. There is none (\<open>None\<close>) where the value passed is an
  inherited property.
\<close>

definition geocode_anchor :: "string \<Rightarrow> coords option" where
  "geocode_anchor locationString =
     (let location = trim (toLowerCase locationString) in
      case map_of dmvLocations location of
        Some coords \<Rightarrow> Some coords
      | None \<Rightarrow>
          if location \<in> set object_prototype_properties then None
          else
            (case find (\<lambda>(place, coords). includes_str location place \<or> includes_str place location)
                    dmvLocations of
               Some (place, coords) \<Rightarrow> Some coords
             | None \<Rightarrow>
                 if includes_str location ''virginia'' \<or> includes_str location ''va''
                 then Some (js_number 38.8816, js_number (-77.0910))
                 else if includes_str location ''maryland'' \<or> includes_str location ''md''
                 then Some (js_number 38.9907, js_number (-77.0261))
                 else Some (js_number 38.9072, js_number (-77.0369))))"

text \<open>
  The partial match of \<open>geocodeLocation\<close>: the gazetteer key occurs in the
  location or the location occurs in the key.
\<close>

definition matches_place :: "string \<Rightarrow> string \<Rightarrow> bool" where
  "matches_place loc place = (sublist place loc \<or> sublist loc place)"

section \<open>Location resolver\<close>

definition locationKeywords :: "string list" where
  "locationKeywords =
     [''dupont circle'', ''dupont'', ''adams morgan'', ''capitol hill'', ''columbia heights'',
      ''shaw'', ''petworth'', ''brookland'', ''anacostia'', ''foggy bottom'', ''georgetown'',
      ''logan circle'', ''u street'', ''h street'', ''navy yard'', ''downtown'', ''chinatown'',
      ''washington dc'', ''washington'', ''dc'',
      ''arlington'', ''alexandria'', ''fairfax'', ''vienna'', ''reston'', ''sterling'',
      ''annandale'', ''falls church'', ''tysons'', ''leesburg'', ''herndon'', ''mclean'',
      ''springfield'', ''burke'', ''woodbridge'', ''manassas'',
      ''bethesda'', ''rockville'', ''silver spring'', ''takoma park'', ''college park'',
      ''hyattsville'', ''gaithersburg'', ''germantown'', ''wheaton'', ''kensington'',
      ''chevy chase'', ''potomac'', ''bowie'', ''laurel'', ''greenbelt'', ''riverdale'',
      ''northern virginia'', ''nova'', ''maryland'', ''virginia'']"

text \<open>
  \<open>extractLocationFromName\<close> (lines 365 to 403); \<open>None\<close> is the
  \<open>null\<close> it returns.
\<close>

definition extractLocationFromName :: "string option \<Rightarrow> string option" where
  "extractLocationFromName groupName =
     (if \<not> truthy groupName then None
      else find (\<lambda>location. includes_str (toLowerCase (the groupName)) location) locationKeywords)"

text \<open>\<open>extractNeighborhood\<close> (lines 540 to 544).\<close>

definition extractNeighborhood :: "string \<Rightarrow> string" where
  "extractNeighborhood locationString =
     (let part = trim (split_comma_first locationString)
      in if part = [] then ''DMV Area'' else part)"

record location_t =
  address :: string
  neighborhood :: string
  loc_coordinates :: "coords option"
  hasSpecificLocation :: bool

text \<open>
  The test that \<open>extractLocation\<close> makes twice: the string is empty, blank, one of the two
  placeholder texts, or contains \<open>varies\<close>.
\<close>

definition no_location_info :: "string \<Rightarrow> bool" where
  "no_location_info locationString =
     (locationString = [] \<or> trim locationString = [] \<or>
      toLowerCase locationString = ''dmv area'' \<or>
      toLowerCase locationString = ''contact for location'' \<or>
      includes_str (toLowerCase locationString) ''varies'')"

text \<open>
  The six location fields in the order of the array literal, then
  \<open>.filter(Boolean)\<close>.
\<close>

definition locationOptions :: "attrs \<Rightarrow> string list" where
  "locationOptions a =
     map the (filter truthy
       [location_type_preference a, location_attr a, contact_info a,
        church_center_url_location a, address_attr a, meeting_location a])"

text \<open>\<open>extractLocation\<close> (lines 304 to 362).\<close>

definition extractLocation :: "attrs \<Rightarrow> random_source \<Rightarrow> nat \<Rightarrow> js_error + (location_t \<times> nat)" where
  "extractLocation a rs n =
     (let first = (case locationOptions a of [] \<Rightarrow> [] | s # rest \<Rightarrow> s);
          locationString =
            (if no_location_info first
             then or_else (extractLocationFromName (name_attr a)) first
             else first)
      in if \<not> no_location_info locationString
         then (case geocodeLocation locationString rs n of
                 Inl e \<Rightarrow> Inl e
               | Inr (coordinates, n') \<Rightarrow>
                   Inr (\<lparr> address = locationString,
                          neighborhood = extractNeighborhood locationString,
                          loc_coordinates = Some coordinates,
                          hasSpecificLocation = True \<rparr>, n'))
         else Inr (\<lparr> address = ''Contact for meeting location'',
                     neighborhood = ''DMV Area'',
                     loc_coordinates = None,
                     hasSpecificLocation = False \<rparr>, n))"

section \<open>Group records\<close>

text \<open>The field \<open>id\<close> of the code is \<open>group_id\<close> here.\<close>

record group_record =
  group_id :: string
  name :: string
  description :: string
  groupType :: groupType_t
  location :: location_t
  meetingDay :: string
  contactInfo :: string
  coordinates :: "coords option"
  memberCount :: nat
  isActive :: bool
  lastUpdated :: "string option"

text \<open>
  The body of the arrow function that \<open>processGroups\<close> maps over the raw groups.
\<close>

definition processGroup :: "raw_group \<Rightarrow> random_source \<Rightarrow> nat \<Rightarrow> js_error + (group_record \<times> nat)" where
  "processGroup g rs n =
     (let a = attributes_or_empty g in
      case extractLocation a rs n of
        Inl e \<Rightarrow> Inl e
      | Inr (loc, n') \<Rightarrow>
          Inr (\<lparr> group_id = raw_id g,
                 name = or_else (name_attr a) ''Unnamed Group'',
                 description = or_else (description_attr a) [],
                 groupType = determineGroupType a,
                 location = loc,
                 meetingDay = or_else (schedule a) ''Contact for details'',
                 contactInfo = or_else (contact_email a) [],
                 coordinates = loc_coordinates loc,
                 memberCount = (case memberships_count a of None \<Rightarrow> 0 | Some k \<Rightarrow> k),
                 isActive = (archived a = Some False),
                 lastUpdated = updated_at a \<rparr>, n'))"

text \<open>\<open>rawGroups.map(...)\<close>: left to right, the first exception ends it.\<close>

fun processGroups_map :: "raw_group list \<Rightarrow> random_source \<Rightarrow> nat \<Rightarrow> js_error + (group_record list \<times> nat)" where
  "processGroups_map [] rs n = Inr ([], n)"
| "processGroups_map (g # gs) rs n =
     (case processGroup g rs n of
        Inl e \<Rightarrow> Inl e
      | Inr (r, n') \<Rightarrow>
          (case processGroups_map gs rs n' of
             Inl e \<Rightarrow> Inl e
           | Inr (out, n'') \<Rightarrow> Inr (r # out, n'')))"

text \<open>
  \<open>processGroups\<close> (lines 279 to 301): the map, then \<open>.filter(group =>
  group.isActive)\<close>.
\<close>

definition processGroups :: "raw_group list \<Rightarrow> random_source \<Rightarrow> nat \<Rightarrow> js_error + (group_record list \<times> nat)" where
  "processGroups rawGroups rs n =
     (case processGroups_map rawGroups rs n of
        Inl e \<Rightarrow> Inl e
      | Inr (out, n') \<Rightarrow> Inr (filter isActive out, n'))"

section \<open>Geographic distributor\<close>

record distribution_point =
  point_name :: string
  point_coords :: coords

definition distributionPoints :: "distribution_point list" where
  "distributionPoints =
     [\<lparr> point_name = ''Dupont Circle'', point_coords = (js_number 38.9097, js_number (-77.0365)) \<rparr>,
      \<lparr> point_name = ''Arlington'', point_coords = (js_number 38.8816, js_number (-77.0910)) \<rparr>,
      \<lparr> point_name = ''Columbia Heights'', point_coords = (js_number 38.9289, js_number (-77.0353)) \<rparr>,
      \<lparr> point_name = ''Bethesda'', point_coords = (js_number 38.9807, js_number (-77.1010)) \<rparr>,
      \<lparr> point_name = ''Alexandria'', point_coords = (js_number 38.8048, js_number (-77.0469)) \<rparr>,
      \<lparr> point_name = ''Silver Spring'', point_coords = (js_number 38.9907, js_number (-77.0261)) \<rparr>,
      \<lparr> point_name = ''Capitol Hill'', point_coords = (js_number 38.8903, js_number (-76.9901)) \<rparr>,
      \<lparr> point_name = ''Fairfax'', point_coords = (js_number 38.8462, js_number (-77.3064)) \<rparr>,
      \<lparr> point_name = ''Georgetown'', point_coords = (js_number 38.9076, js_number (-77.0723)) \<rparr>,
      \<lparr> point_name = ''Adams Morgan'', point_coords = (js_number 38.9220, js_number (-77.0420)) \<rparr>,
      \<lparr> point_name = ''Rockville'', point_coords = (js_number 39.0840, js_number (-77.1528)) \<rparr>,
      \<lparr> point_name = ''Takoma Park'', point_coords = (js_number 38.9779, js_number (-77.0074)) \<rparr>]"

text \<open>
  The replacement record that the distributor builds for a group without coordinates: the
  offset of \<open>location.coordinates\<close> is drawn first, the one of \<open>coordinates\<close> second.
\<close>

definition assign_point :: "group_record \<Rightarrow> distribution_point \<Rightarrow> random_source \<Rightarrow> nat \<Rightarrow> group_record \<times> nat" where
  "assign_point g point rs n =
     (let (c1, n1) = addRandomOffset (point_coords point) rs n;
          (c2, n2) = addRandomOffset (point_coords point) rs n1
      in (g\<lparr> location := (location g)\<lparr> address := point_name point @ '' area'',
                                          neighborhood := point_name point,
                                          loc_coordinates := Some c1,
                                          hasSpecificLocation := True \<rparr>,
            coordinates := Some c2 \<rparr>, n2))"

text \<open>
  The \<open>groups.map(...)\<close> of \<open>distributeGroupsGeographically\<close>, with the variable
  \<open>distributionIndex\<close> that its arrow function increments as an explicit argument.
\<close>

fun distribute_from :: "nat \<Rightarrow> group_record list \<Rightarrow> random_source \<Rightarrow> nat \<Rightarrow> group_record list \<times> nat" where
  "distribute_from distributionIndex [] rs n = ([], n)"
| "distribute_from distributionIndex (g # groups) rs n =
     (if coordinates g \<noteq> None
      then (let (out, n') = distribute_from distributionIndex groups rs n
            in (g # out, n'))
      else (let point = distributionPoints ! (distributionIndex mod length distributionPoints);
                (g', n1) = assign_point g point rs n;
                (out, n') = distribute_from (distributionIndex + 1) groups rs n1
            in (g' # out, n')))"

text \<open>
  \<open>distributeGroupsGeographically\<close> (lines 547 to 592): the index starts at 0.
\<close>

definition distributeGroupsGeographically :: "group_record list \<Rightarrow> random_source \<Rightarrow> nat \<Rightarrow> group_record list \<times> nat" where
  "distributeGroupsGeographically groups rs n = distribute_from 0 groups rs n"

section \<open>Fallback list and \<open>getGroups\<close>\<close>

text \<open>
  \<open>getFallbackGroups\<close> of the client (lines 595 to 680). The \<open>location\<close> objects of the
  list have no \<open>coordinates\<close> property and the records no \<open>lastUpdated\<close> property.
\<close>

definition getFallbackGroups :: "group_record list" where
  "getFallbackGroups =
     [\<lparr> group_id = ''fallback-1'',
        name = ''Dupont Circle Community Group'',
        description = ''Weekly gathering for authentic community and spiritual growth'',
        groupType = community,
        location = \<lparr> address = ''Dupont Circle, DC'', neighborhood = ''Dupont Circle'',
                     loc_coordinates = None, hasSpecificLocation = True \<rparr>,
        meetingDay = ''Wednesday evenings'',
        contactInfo = ''Contact church for details'',
        coordinates = Some (js_number 38.9097, js_number (-77.0365)),
        memberCount = 12, isActive = True, lastUpdated = None \<rparr>,
      \<lparr> group_id = ''fallback-2'',
        name = ''Young Adult Professionals'',
        description = ''Affinity group for young professionals navigating faith and career'',
        groupType = affinity,
        location = \<lparr> address = ''Arlington, VA'', neighborhood = ''Arlington'',
                     loc_coordinates = None, hasSpecificLocation = True \<rparr>,
        meetingDay = ''Tuesday evenings'',
        contactInfo = ''Contact church for details'',
        coordinates = Some (js_number 38.8816, js_number (-77.0910)),
        memberCount = 8, isActive = True, lastUpdated = None \<rparr>,
      \<lparr> group_id = ''fallback-3'',
        name = ''Columbia Heights Community Group'',
        description = ''Diverse community group focused on justice and service'',
        groupType = community,
        location = \<lparr> address = ''Columbia Heights, DC'', neighborhood = ''Columbia Heights'',
                     loc_coordinates = None, hasSpecificLocation = True \<rparr>,
        meetingDay = ''Thursday evenings'',
        contactInfo = ''Contact church for details'',
        coordinates = Some (js_number 38.9289, js_number (-77.0353)),
        memberCount = 15, isActive = True, lastUpdated = None \<rparr>,
      \<lparr> group_id = ''fallback-4'',
        name = ''LGBTQ+ Affinity Group'',
        description = ''Safe space for LGBTQ+ members and allies'',
        groupType = affinity,
        location = \<lparr> address = ''Shaw, DC'', neighborhood = ''Shaw'',
                     loc_coordinates = None, hasSpecificLocation = True \<rparr>,
        meetingDay = ''Monthly gatherings'',
        contactInfo = ''Contact church for details'',
        coordinates = Some (js_number 38.9129, js_number (-77.0218)),
        memberCount = 6, isActive = True, lastUpdated = None \<rparr>,
      \<lparr> group_id = ''fallback-5'',
        name = ''Bethesda Community Group'',
        description = ''Suburban community group for families and individuals'',
        groupType = community,
        location = \<lparr> address = ''Bethesda, MD'', neighborhood = ''Bethesda'',
                     loc_coordinates = None, hasSpecificLocation = True \<rparr>,
        meetingDay = ''Sunday afternoons'',
        contactInfo = ''Contact church for details'',
        coordinates = Some (js_number 38.9807, js_number (-77.1010)),
        memberCount = 10, isActive = True, lastUpdated = None \<rparr>]"

text \<open>
  What a \<open>fetch\<close> followed by \<open>response.json()\<close> can give: the request is rejected, or a
  response arrives with its \<open>ok\<close> flag and a body, which is \<open>None\<close> when it is not JSON.
\<close>

datatype 'a fetch_outcome = Rejected | Responded bool "'a option"

text \<open>
  The body that the proxy sends: \<open>{ groups, lastUpdated }\<close> or \<open>{ error,
  details }\<close>.
\<close>

record proxy_data =
  error :: "string option"
  groups :: "raw_group list option"

text \<open>
  The \<open>try\<close> block of \<open>getGroups\<close> (lines 250 to 271). Reading \<open>data.groups.length\<close> of a
  body without \<open>groups\<close> raises \<open>TypeError\<close>.
\<close>

definition getGroups_try_block :: "proxy_data fetch_outcome \<Rightarrow> random_source \<Rightarrow> nat \<Rightarrow> js_error + group_record list" where
  "getGroups_try_block env rs n =
     (case env of
        Rejected \<Rightarrow> Inl NetworkError
      | Responded ok body \<Rightarrow>
          if \<not> ok then Inl HttpError
          else (case body of
                  None \<Rightarrow> Inl SyntaxError
                | Some data \<Rightarrow>
                    if truthy (error data) then Inl ProxyError
                    else (case groups data of
                            None \<Rightarrow> Inl TypeError
                          | Some rawGroups \<Rightarrow>
                              (case processGroups rawGroups rs n of
                                 Inl e \<Rightarrow> Inl e
                               | Inr (processedGroups, n') \<Rightarrow>
                                   Inr (fst (distributeGroupsGeographically processedGroups rs n'))))))"

text \<open>
  The \<open>try\<close> statement with its \<open>catch\<close> clause (lines 250 to 275).
\<close>

definition getGroups_try_catch :: "proxy_data fetch_outcome \<Rightarrow> random_source \<Rightarrow> nat \<Rightarrow> group_record list" where
  "getGroups_try_catch env rs n =
     (case getGroups_try_block env rs n of
        Inl e \<Rightarrow> getFallbackGroups
      | Inr result \<Rightarrow> result)"

text \<open>
  A statement either returns a value (\<open>Some\<close>) or completes without returning (\<open>None\<close>);
  the statements after it run in the second case only.
\<close>

definition return_or_continue :: "'a option \<Rightarrow> 'a \<Rightarrow> 'a" where
  "return_or_continue completion rest = (case completion of Some v \<Rightarrow> v | None \<Rightarrow> rest)"

text \<open>
  \<open>getGroups\<close> (lines 245 to 276): the statement \<open>return this.getFallbackGroups();\<close>
  (line 248), then the \<open>try\<close> statement.
\<close>

definition getGroups :: "proxy_data fetch_outcome \<Rightarrow> random_source \<Rightarrow> nat \<Rightarrow> group_record list" where
  "getGroups env rs n =
     return_or_continue (Some getFallbackGroups) (getGroups_try_catch env rs n)"

section \<open>Proxy\<close>

text \<open>
  The document of the upstream API: \<open>responseData.data\<close> may be missing.
\<close>

record upstream_data =
  data :: "raw_group list option"

text \<open>\<open>processGroupData\<close> of the proxy (the same text in both files).\<close>

definition processGroupData :: "raw_group \<Rightarrow> raw_group" where
  "processGroupData g =
     (let a = attributes_or_empty g in
      \<lparr> raw_id = raw_id g,
        attributes = Some (empty_attrs
          \<lparr> name_attr := Some (or_else (name_attr a) ''Unnamed Group''),
            description_attr := Some (or_else (description_attr a) []),
            location_attr := Some (or_else (location_type_preference a) ''DMV Area''),
            schedule := Some (or_else (schedule a) ''Contact for details''),
            contact_email := Some (or_else (contact_email a) []),
            public_url := Some (or_else (public_church_center_web_url a) []),
            memberships_count := Some (case memberships_count a of None \<Rightarrow> 0 | Some k \<Rightarrow> k),
            archived := Some (archived a = Some True),
            updated_at := updated_at a,
            group_type := Some (or_else (group_type a) []),
            enrollment := Some (or_else (enrollment a) ''open'') \<rparr>) \<rparr>)"

text \<open>
  The filter of \<open>fetchGroups\<close> in src/netlify/functions/planning-center.js (lines 114 to 120):
  not archived, with a public URL, and with enrollment \<open>open\<close>.
\<close>

definition eligible :: "raw_group \<Rightarrow> bool" where
  "eligible g =
     (let a = attributes_or_empty g in
      archived a \<noteq> Some True \<and> truthy (public_church_center_web_url a) \<and>
      enrollment a = Some ''open'')"

text \<open>
  The filter of \<open>fetchGroups\<close> in src/map.js (lines 569 to 579): \<open>hasUrl\<close> and \<open>isOpen\<close>
  are computed and logged, \<open>isActive\<close> alone is returned.
\<close>

definition eligible_map :: "raw_group \<Rightarrow> bool" where
  "eligible_map g =
     (let a = attributes_or_empty g;
          isActive = (archived a \<noteq> Some True);
          hasUrl = truthy (public_church_center_web_url a);
          isOpen = (enrollment a = Some ''open'' \<or> enrollment a = Some ''request_to_join'')
      in isActive)"

text \<open>
  \<open>fetchGroups\<close> of src/netlify/functions/planning-center.js (lines 81 to 131).
\<close>

definition fetchGroups :: "upstream_data fetch_outcome \<Rightarrow> js_error + raw_group list" where
  "fetchGroups upstream =
     (case upstream of
        Rejected \<Rightarrow> Inl NetworkError
      | Responded ok body \<Rightarrow>
          if \<not> ok then Inl HttpError
          else (case body of
                  None \<Rightarrow> Inl SyntaxError
                | Some responseData \<Rightarrow>
                    (let fetched = (case data responseData of None \<Rightarrow> [] | Some gs \<Rightarrow> gs)
                     in Inr (map processGroupData (filter eligible fetched)))))"

text \<open>
  \<open>fetchGroups\<close> of src/map.js (lines 528 to 590), named
  \<open>fetchGroups_map\<close> here.
\<close>

definition fetchGroups_map :: "upstream_data fetch_outcome \<Rightarrow> js_error + raw_group list" where
  "fetchGroups_map upstream =
     (case upstream of
        Rejected \<Rightarrow> Inl NetworkError
      | Responded ok body \<Rightarrow>
          if \<not> ok then Inl HttpError
          else (case body of
                  None \<Rightarrow> Inl SyntaxError
                | Some responseData \<Rightarrow>
                    (let fetched = (case data responseData of None \<Rightarrow> [] | Some gs \<Rightarrow> gs)
                     in Inr (map processGroupData (filter eligible_map fetched)))))"

section \<open>Concrete inputs\<close>

text \<open>
  A community group of Bethesda, as an attribute bag with a name and a description only.
\<close>

definition bethesda_attrs :: attrs where
  "bethesda_attrs = empty_attrs\<lparr> name_attr := Some ''Bethesda Community Group'',
                                 description_attr := Some ''families and individuals'' \<rparr>"

text \<open>
  A processed record for which no location was resolved, and the record that the distributor
  makes of it at the first distribution point under \<open>zero_draws\<close>.
\<close>

definition unplaced_group :: group_record where
  "unplaced_group =
     \<lparr> group_id = ''g-1'', name = ''Book Club'', description = [], groupType = affinity,
       location = \<lparr> address = ''Contact for meeting location'', neighborhood = ''DMV Area'',
                    loc_coordinates = None, hasSpecificLocation = False \<rparr>,
       meetingDay = ''Contact for details'', contactInfo = [], coordinates = None,
       memberCount = 0, isActive = True, lastUpdated = None \<rparr>"

definition placed_group :: group_record where
  "placed_group =
     unplaced_group\<lparr> location := \<lparr> address = ''Dupont Circle area'', neighborhood = ''Dupont Circle'',
                    loc_coordinates = Some (js_number 38.9061, js_number (-77.04010000000001)),
                    hasSpecificLocation = True \<rparr>,
                    coordinates := Some (js_number 38.9061, js_number (-77.04010000000001)) \<rparr>"

text \<open>
  Two groups as the upstream API may send them: one that is not archived, has a public URL and
  a closed enrollment, and one that is archived.
\<close>

definition closed_enrollment_group :: raw_group where
  "closed_enrollment_group =
     \<lparr> raw_id = ''g-closed'',
       attributes = Some (empty_attrs
         \<lparr> name_attr := Some ''Shaw Community Group'',
           public_church_center_web_url := Some ''https://example.churchcenter.com/groups/1'',
           archived := Some False,
           enrollment := Some ''closed'' \<rparr>) \<rparr>"

definition archived_group :: raw_group where
  "archived_group =
     \<lparr> raw_id = ''g-archived'',
       attributes = Some (empty_attrs
         \<lparr> name_attr := Some ''Petworth Community Group'',
           public_church_center_web_url := Some ''https://example.churchcenter.com/groups/2'',
           archived := Some True,
           enrollment := Some ''open'' \<rparr>) \<rparr>"

text \<open>
  A raw group that is active and has a name but no location field, and the response of the
  proxy that carries it alone.
\<close>

definition no_location_raw :: raw_group where
  "no_location_raw =
     \<lparr> raw_id = ''g-1'',
       attributes = Some (empty_attrs\<lparr> name_attr := Some ''Book Club'', archived := Some False \<rparr>) \<rparr>"

definition live_env :: "proxy_data fetch_outcome" where
  "live_env = Responded True (Some \<lparr> error = None, groups = Some [no_location_raw] \<rparr>)"

text \<open>The body with which the proxy reports a failure.\<close>

definition proxy_error_body :: proxy_data where
  "proxy_error_body =
     \<lparr> error = Some ''Failed to fetch data from Planning Center'', groups = None \<rparr>"

text \<open>
  Attribute bags for the location resolver: one whose first location field is a placeholder
  and whose second names a place, one with a placeholder only and a place in the name, and one
  with a plain location.
\<close>

definition dmv_then_dupont_attrs :: attrs where
  "dmv_then_dupont_attrs =
     empty_attrs\<lparr> name_attr := Some ''Book Club'',
                  location_type_preference := Some ''DMV Area'',
                  location_attr := Some ''Dupont Circle'' \<rparr>"

definition arlington_name_attrs :: attrs where
  "arlington_name_attrs =
     empty_attrs\<lparr> name_attr := Some ''Arlington Young Professionals'',
                  location_type_preference := Some ''Contact for location'' \<rparr>"

definition dupont_attrs :: attrs where
  "dupont_attrs =
     empty_attrs\<lparr> name_attr := Some ''Dupont Circle Community Group'',
                  location_attr := Some ''Dupont Circle, DC'' \<rparr>"

section \<open>Properties\<close>

subsection \<open>Strings\<close>

lemma includes_sublist: "includes_str s k = sublist k s"
  by (induction s) (auto simp: sublist_Cons_right)

subsection \<open>Numbers\<close>

text \<open>
  The rounding: it errs by at most half the spacing of the doubles around its argument, it
  keeps every double, and it does not cross a double: a bound that is itself a double of
  normal magnitude, given as a significand of 53 bits and an exponent, bounds the rounded
  value as it bounds the argument.
\<close>

lemma round_half_even_error: "\<bar>of_int (round_half_even y) - y\<bar> \<le> 1 / 2"
  unfolding round_half_even_def Let_def by (auto simp: abs_le_iff; linarith)

lemma round_half_even_of_int [simp]: "round_half_even (of_int n) = n"
  by (simp add: round_half_even_def)

lemma round_half_even_range:
  "\<lfloor>y\<rfloor> \<le> round_half_even y \<and> round_half_even y \<le> \<lfloor>y\<rfloor> + 1"
  by (simp add: round_half_even_def Let_def)

lemma round_half_even_le:
  assumes "\<bar>y\<bar> \<le> of_int m"
  shows "\<bar>of_int (round_half_even y) :: real\<bar> \<le> of_int m"
proof -
  from assms have "y \<le> of_int m" "- of_int m \<le> y"
    by linarith+
  then have y: "y \<le> of_int m" "of_int (- m) \<le> y"
    by simp_all
  have lo: "- m \<le> \<lfloor>y\<rfloor>"
    using y(2) by (simp only: le_floor_iff)
  have hi: "\<lfloor>y\<rfloor> \<le> m"
    using y(1) by (simp add: floor_le_iff; linarith)
  have "round_half_even y \<le> m"
  proof (cases "\<lfloor>y\<rfloor> = m")
    case True
    with y(1) of_int_floor_le[of y] have "y = of_int m" by simp
    then show ?thesis by simp
  next
    case False
    with hi round_half_even_range[of y] show ?thesis by linarith
  qed
  moreover have "- m \<le> round_half_even y"
    using lo round_half_even_range[of y] by linarith
  ultimately have "of_int (round_half_even y) \<le> (of_int m :: real)"
    "- (of_int m :: real) \<le> of_int (round_half_even y)"
    by (simp_all flip: of_int_minus)
  then show ?thesis
    by linarith
qed

lemma powi2_less_iff: "(2::real) powi m < 2 powi n \<longleftrightarrow> m < n"
proof
  assume "(2::real) powi m < 2 powi n"
  show "m < n"
  proof (rule ccontr)
    assume "\<not> m < n"
    then have "(2::real) powi n \<le> 2 powi m"
      by (intro power_int_increasing) simp_all
    with \<open>(2::real) powi m < 2 powi n\<close> show False by simp
  qed
next
  assume "m < n"
  then show "(2::real) powi m < 2 powi n"
    by (intro power_int_strict_increasing) simp_all
qed

lemma powi2_le_iff: "(2::real) powi m \<le> 2 powi n \<longleftrightarrow> m \<le> n"
  using powi2_less_iff[of n m] by (auto simp: not_less[symmetric])

lemma powi2_add: "(2::real) powi (a + b) = 2 powi a * 2 powi b"
  by (simp add: power_int_add)

lemma exponent_of_bounds:
  assumes "x \<noteq> 0"
  shows "2 powi exponent_of x \<le> \<bar>x\<bar> \<and> \<bar>x\<bar> < 2 powi (exponent_of x + 1)"
proof (cases "1 \<le> \<bar>x\<bar>")
  case True
  define n where "n = \<lfloor>\<bar>x\<bar>\<rfloor>"
  have n: "0 < n" using True by (simp add: n_def)
  have b1: "1 \<le> bitlen n" using n by (simp add: bitlen_alt_def)
  from bitlen_bounds[OF n] have lo: "2 ^ nat (bitlen n - 1) \<le> n" and hi: "n < 2 ^ nat (bitlen n)"
    by auto
  have e: "exponent_of x = bitlen n - 1"
    using True by (simp add: exponent_of_def n_def)
  have "(2::real) ^ nat (bitlen n - 1) \<le> of_int n"
    using lo by (metis of_int_le_iff of_int_numeral of_int_power)
  also have "\<dots> \<le> \<bar>x\<bar>" by (simp add: n_def)
  finally have 1: "2 powi exponent_of x \<le> \<bar>x\<bar>"
    using b1 by (simp add: e power_int_def)
  have "n + 1 \<le> 2 ^ nat (bitlen n)" using hi by simp
  then have "(of_int (n + 1) :: real) \<le> 2 ^ nat (bitlen n)"
    by (metis of_int_le_iff of_int_numeral of_int_power)
  moreover have "\<bar>x\<bar> < of_int (n + 1)" by (simp add: n_def)
  ultimately have "\<bar>x\<bar> < 2 ^ nat (bitlen n)" by linarith
  then have 2: "\<bar>x\<bar> < 2 powi (exponent_of x + 1)"
    using b1 by (simp add: e power_int_def)
  from 1 2 show ?thesis ..
next
  case False
  define a where "a = \<bar>x\<bar>"
  have a: "0 < a" "a < 1" using False assms by (simp_all add: a_def)
  define n where "n = \<lfloor>1 / a\<rfloor>"
  have "1 < 1 / a" using a by simp
  then have n: "0 < n" by (simp add: n_def)
  define b where "b = bitlen n"
  have b1: "1 \<le> b" using n by (simp add: b_def bitlen_alt_def)
  from bitlen_bounds[OF n] have lo: "2 ^ nat (b - 1) \<le> n" and hi: "n < 2 ^ nat b"
    by (auto simp: b_def)
  have "(2::real) ^ nat (b - 1) \<le> of_int n"
    using lo by (metis of_int_le_iff of_int_numeral of_int_power)
  also have "\<dots> \<le> 1 / a" by (simp add: n_def)
  finally have "a * 2 ^ nat (b - 1) \<le> 1"
    using a by (simp add: field_simps)
  then have up: "a \<le> 2 powi (1 - b)"
    using b1 a by (auto simp: power_int_def field_simps)
  have "n + 1 \<le> 2 ^ nat b" using hi by simp
  then have "(of_int (n + 1) :: real) \<le> 2 ^ nat b"
    by (metis of_int_le_iff of_int_numeral of_int_power)
  moreover have "1 / a < of_int (n + 1)" by (simp add: n_def)
  ultimately have "1 / a < 2 ^ nat b" by linarith
  then have "1 < a * 2 ^ nat b"
    using a by (simp add: field_simps)
  then have low: "2 powi (- b) < a"
    using b1 by (simp add: power_int_def field_simps)
  have e: "exponent_of x = (if a = 2 powi (1 - b) then 1 - b else - b)"
    using False by (simp add: exponent_of_def a_def b_def n_def Let_def)
  show ?thesis
  proof (cases "a = 2 powi (1 - b)")
    case True
    then have "exponent_of x = 1 - b" using e by simp
    moreover have "(2::real) powi (1 - b) < 2 powi (1 - b + 1)"
      by (rule power_int_strict_increasing) simp_all
    ultimately show ?thesis using True by (simp add: a_def)
  next
    case False
    then have "exponent_of x = - b" using e by simp
    moreover have "a < 2 powi (1 - b)" using up False by simp
    ultimately show ?thesis using low by (simp add: a_def)
  qed
qed

lemma exponent_of_unique:
  assumes "2 powi k \<le> \<bar>x\<bar>" and "\<bar>x\<bar> < 2 powi (k + 1)"
  shows "exponent_of x = k"
proof -
  have "x \<noteq> 0"
  proof
    assume "x = 0"
    with assms(1) have "(2::real) powi k \<le> 0" by simp
    moreover have "(0::real) < 2 powi k" by simp
    ultimately show False by linarith
  qed
  from exponent_of_bounds[OF this] assms
  have "(2::real) powi exponent_of x < 2 powi (k + 1)" "(2::real) powi k < 2 powi (exponent_of x + 1)"
    by linarith+
  then have "exponent_of x < k + 1" "k < exponent_of x + 1"
    by (simp_all add: powi2_less_iff)
  then show ?thesis by simp
qed

lemma exponent_of_less:
  assumes "x \<noteq> 0" and "\<bar>x\<bar> < 2 powi k"
  shows "exponent_of x < k"
proof -
  from exponent_of_bounds[OF assms(1)] assms(2)
  have "(2::real) powi exponent_of x < 2 powi k" by linarith
  then show ?thesis by (simp add: powi2_less_iff)
qed

lemma round64_error:
  "\<bar>round64 x - x\<bar> \<le> 2 powi (max (exponent_of x) (- 1022) - 53)"
proof (cases "x = 0")
  case True
  then show ?thesis by (simp add: round64_def)
next
  case False
  define q :: real where "q = 2 powi (max (exponent_of x) (- 1022) - 52)"
  have q: "0 < q" by (simp add: q_def)
  have r: "round64 x = of_int (round_half_even (x / q)) * q"
    using False by (simp add: round64_def q_def Let_def)
  have "round64 x - x = (of_int (round_half_even (x / q)) - x / q) * q"
    using q by (simp add: r field_simps)
  then have "\<bar>round64 x - x\<bar> = \<bar>of_int (round_half_even (x / q)) - x / q\<bar> * q"
    using q by (simp add: abs_mult)
  also have "\<dots> \<le> (1 / 2) * q"
    using q round_half_even_error[of "x / q"] by (intro mult_right_mono) simp_all
  also have "\<dots> = 2 powi (max (exponent_of x) (- 1022) - 53)"
    by (simp add: q_def power_int_diff)
  finally show ?thesis .
qed

lemma round64_error_below:
  assumes "\<bar>x\<bar> < 2 powi k" and "- 1021 \<le> k"
  shows "\<bar>round64 x - x\<bar> \<le> 2 powi (k - 54)"
proof (cases "x = 0")
  case True
  then show ?thesis by (simp add: round64_def)
next
  case False
  from exponent_of_less[OF False assms(1)] assms(2)
  have "max (exponent_of x) (- 1022) - 53 \<le> k - 54" by simp
  then have "(2::real) powi (max (exponent_of x) (- 1022) - 53) \<le> 2 powi (k - 54)"
    by (simp only: powi2_le_iff)
  with round64_error[of x] show ?thesis by linarith
qed

lemma round64_abs_le_pow2:
  assumes "\<bar>x\<bar> \<le> 2 powi k" and "- 1022 \<le> k"
  shows "\<bar>round64 x\<bar> \<le> 2 powi k"
proof (cases "x = 0")
  case True
  then show ?thesis by (simp add: round64_def)
next
  case False
  define E where "E = max (exponent_of x) (- 1022)"
  define q :: real where "q = 2 powi (E - 52)"
  have q: "0 < q" by (simp add: q_def)
  have r: "round64 x = of_int (round_half_even (x / q)) * q"
    using False by (simp add: round64_def q_def E_def Let_def)
  from exponent_of_bounds[OF False] assms(1)
  have "(2::real) powi exponent_of x \<le> 2 powi k" by linarith
  then have "exponent_of x \<le> k" by (simp only: powi2_le_iff)
  with assms(2) have E: "E \<le> k" by (simp add: E_def)
  define m :: int where "m = 2 ^ nat (k - E + 52)"
  have m: "(of_int m :: real) = 2 powi (k - E + 52)"
    using E by (simp add: m_def power_int_def)
  have mq: "of_int m * q = 2 powi k"
    unfolding m q_def by (simp only: powi2_add[symmetric]) simp
  have "\<bar>x / q\<bar> = \<bar>x\<bar> / q" using q by simp
  also have "\<dots> \<le> 2 powi k / q"
    using assms(1) q by (simp add: divide_right_mono)
  also have "\<dots> = of_int m"
    using q mq by (simp add: field_simps)
  finally have "\<bar>of_int (round_half_even (x / q)) :: real\<bar> \<le> of_int m"
    by (rule round_half_even_le)
  then have "\<bar>of_int (round_half_even (x / q)) :: real\<bar> * q \<le> of_int m * q"
    using q by (intro mult_right_mono) simp_all
  then show ?thesis
    using q by (simp add: r abs_mult mq)
qed

lemma round64_abs_le_double:
  assumes B: "B = of_int M * 2 powi (k - 52)" and M: "2 ^ 52 \<le> M" "M < 2 ^ 53"
    and k: "- 1022 \<le> k" and x: "\<bar>x\<bar> \<le> B"
  shows "\<bar>round64 x\<bar> \<le> B"
proof -
  have M1: "(2::real) ^ 52 \<le> of_int M"
    using M(1) by (metis of_int_le_iff of_int_numeral of_int_power)
  have M2: "of_int M < (2::real) ^ 53"
    using M(2) by (metis of_int_less_iff of_int_numeral of_int_power)
  have p: "(0::real) < 2 powi (k - 52)" by simp
  have "(2::real) powi k = 2 powi (52 + (k - 52))"
    and "(2::real) powi (k + 1) = 2 powi (53 + (k - 52))"
    by (rule arg_cong[where f = "power_int 2"], simp)+
  then have s52: "(2::real) powi k = 2 powi 52 * 2 powi (k - 52)"
    and s53: "(2::real) powi (k + 1) = 2 powi 53 * 2 powi (k - 52)"
    by (simp_all only: powi2_add)
  have lo: "(2::real) powi k \<le> B"
    unfolding s52 B using M1 p by (intro mult_right_mono) simp_all
  have hi: "B < 2 powi (k + 1)"
    unfolding s53 B using M2 p by (intro mult_strict_right_mono) simp_all
  show ?thesis
  proof (cases "\<bar>x\<bar> < 2 powi k")
    case True
    then have "\<bar>round64 x\<bar> \<le> 2 powi k"
      using k by (intro round64_abs_le_pow2) simp_all
    with lo show ?thesis by linarith
  next
    case False
    then have xk: "2 powi k \<le> \<bar>x\<bar>" by simp
    from x hi have "\<bar>x\<bar> < 2 powi (k + 1)" by linarith
    with xk have e: "exponent_of x = k" by (rule exponent_of_unique)
    have x0: "x \<noteq> 0"
    proof
      assume "x = 0"
      with xk have "(2::real) powi k \<le> 0" by simp
      moreover have "(0::real) < 2 powi k" by simp
      ultimately show False by linarith
    qed
    define q :: real where "q = 2 powi (k - 52)"
    have q: "0 < q" by (simp add: q_def)
    have r: "round64 x = of_int (round_half_even (x / q)) * q"
      using x0 k by (simp add: round64_def q_def e max_def Let_def)
    have "\<bar>x / q\<bar> = \<bar>x\<bar> / q" using q by simp
    also have "\<dots> \<le> B / q" using x q by (simp add: divide_right_mono)
    also have "\<dots> = of_int M" using q by (simp add: B q_def)
    finally have "\<bar>of_int (round_half_even (x / q)) :: real\<bar> \<le> of_int M"
      by (rule round_half_even_le)
    then have "\<bar>of_int (round_half_even (x / q)) :: real\<bar> * q \<le> of_int M * q"
      using q by (intro mult_right_mono) simp_all
    then show ?thesis
      using q by (simp add: r abs_mult B q_def)
  qed
qed

lemma round64_zero [simp]: "round64 0 = 0"
  by (simp add: round64_def)

lemma round64_multiple:
  assumes "y = of_int m * 2 powi (E - 52)" and "max (exponent_of y) (- 1022) \<le> E"
  shows "round64 y = y"
proof (cases "y = 0")
  case True
  then show ?thesis by simp
next
  case False
  define E' where "E' = max (exponent_of y) (- 1022)"
  define q' :: real where "q' = 2 powi (E' - 52)"
  have q': "0 < q'" by (simp add: q'_def)
  have le: "E' \<le> E" using assms(2) by (simp add: E'_def)
  have "(2::real) powi (E - 52) = 2 powi ((E - E') + (E' - 52))"
    by (rule arg_cong[where f = "power_int 2"]) simp
  also have "\<dots> = 2 powi (E - E') * q'"
    by (simp only: powi2_add q'_def)
  also have "(2::real) powi (E - E') = of_int (2 ^ nat (E - E'))"
    using le by (simp add: power_int_def)
  finally have "y = of_int (m * 2 ^ nat (E - E')) * q'"
    by (simp add: assms(1))
  then have "y / q' = of_int (m * 2 ^ nat (E - E'))" and y: "y = of_int (m * 2 ^ nat (E - E')) * q'"
    using q' by simp_all
  then have "round_half_even (y / q') = m * 2 ^ nat (E - E')"
    by (simp only: round_half_even_of_int)
  then have "of_int (round_half_even (y / q')) * q' = y"
    using y by simp
  then show ?thesis
    using False by (simp add: round64_def Let_def q'_def E'_def)
qed

lemma round64_idem [simp]: "round64 (round64 x) = round64 x"
proof (cases "x = 0")
  case True
  then show ?thesis by simp
next
  case False
  define E where "E = max (exponent_of x) (- 1022)"
  define q :: real where "q = 2 powi (E - 52)"
  define n where "n = round_half_even (x / q)"
  have q: "0 < q" by (simp add: q_def)
  have r: "round64 x = of_int n * q"
    using False by (simp add: round64_def q_def E_def n_def Let_def)
  have E: "exponent_of x \<le> E" "- 1022 \<le> E" by (simp_all add: E_def)
  have "(2::real) powi (E + 1) = 2 powi (53 + (E - 52))"
    by (rule arg_cong[where f = "power_int 2"]) simp
  then have s53: "(2::real) powi (E + 1) = 2 powi 53 * q"
    by (simp only: powi2_add q_def)
  from exponent_of_bounds[OF False] have "\<bar>x\<bar> < 2 powi (exponent_of x + 1)" ..
  also have "\<dots> \<le> 2 powi (E + 1)"
    using E(1) by (simp add: powi2_le_iff)
  finally have "\<bar>x\<bar> / q \<le> 2 powi 53"
    using q by (simp add: s53 field_simps)
  then have "\<bar>x / q\<bar> \<le> of_int (2 ^ 53)"
    using q by simp
  then have "\<bar>of_int n :: real\<bar> \<le> of_int (2 ^ 53)"
    unfolding n_def by (rule round_half_even_le)
  then have "\<bar>of_int n :: real\<bar> * q \<le> 2 powi 53 * q"
    using q by (intro mult_right_mono) simp_all
  then have ub: "\<bar>round64 x\<bar> \<le> 2 powi (E + 1)"
    using q by (simp add: r abs_mult s53)
  show ?thesis
  proof (cases "\<bar>round64 x\<bar> < 2 powi (E + 1)")
    case True
    show ?thesis
    proof (cases "round64 x = 0")
      case True
      then show ?thesis by simp
    next
      case nz: False
      from exponent_of_less[OF nz True] E(2)
      have "max (exponent_of (round64 x)) (- 1022) \<le> E" by simp
      with r show ?thesis
        unfolding q_def by (rule round64_multiple)
    qed
  next
    case False
    with ub have eq: "\<bar>round64 x\<bar> = 2 powi (E + 1)" by simp
    have "(2::real) powi (E + 1) < 2 powi (E + 1 + 1)"
      by (simp add: powi2_less_iff)
    with eq have "exponent_of (round64 x) = E + 1"
      by (intro exponent_of_unique) simp_all
    with E(2) have m: "max (exponent_of (round64 x)) (- 1022) \<le> E + 1" by simp
    have "(2::real) powi (E + 1) = 2 powi (52 + (E + 1 - 52))"
      by (rule arg_cong[where f = "power_int 2"]) simp
    then have s: "(2::real) powi (E + 1) = of_int (2 ^ 52) * 2 powi (E + 1 - 52)"
      by (simp only: powi2_add) simp
    from eq have "round64 x = 2 powi (E + 1) \<or> round64 x = - (2 powi (E + 1))"
      by (simp add: abs_if split: if_splits)
    then have "round64 x = of_int (2 ^ 52) * 2 powi (E + 1 - 52) \<or>
               round64 x = of_int (- (2 ^ 52)) * 2 powi (E + 1 - 52)"
      unfolding s by simp
    with m show ?thesis
      using round64_multiple by blast
  qed
qed

lemma fl_add_zero: "fl_add x 0 = round64 x"
  by (simp add: fl_add_def)

lemma js_number_is_double [simp]: "round64 (js_number x) = js_number x"
  by (simp add: js_number_def)



text \<open>
  The two constants of the jitter as doubles: 0.5 is a double, 0.0072 is not, and the double
  nearest to it lies below it.
\<close>

lemma js_number_half: "js_number 0.5 = 1 / 2"
  by code_simp

lemma js_number_0072: "js_number 0.0072 = of_int 8301034833169298 * 2 powi (- 60)"
  by code_simp

lemma js_number_abs_le_127:
  assumes "\<bar>x\<bar> \<le> 127"
  shows "\<bar>js_number x\<bar> \<le> 127"
proof -
  have "(127::real) = of_int 8936830510563328 * 2 powi (6 - 52)"
    by simp
  from this _ _ _ assms show ?thesis
    unfolding js_number_def by (rule round64_abs_le_double) simp_all
qed
subsection \<open>The forced fallback of \<open>getGroups\<close>\<close>

text \<open>
  Claim C2. \<open>getGroups\<close> returns the list of \<open>getFallbackGroups\<close>, which has five records,
  for every outcome of the fetch and every sequence of random draws: its result does not
  depend on its environment, the \<open>try\<close> statement after the \<open>return\<close> contributes nothing.
\<close>

theorem getGroups_always_fallback:
  "getGroups env rs n = getFallbackGroups \<and> length (getGroups env rs n) = 5 \<and>
   getGroups env rs n = getGroups env' rs' n'"
  by (simp add: getGroups_def return_or_continue_def getFallbackGroups_def)

subsection \<open>Group classifier\<close>

lemma toLowerCase_sublist_eval: "includes_str (toLowerCase ''Young Adult Professionals'') ''young adult''"
  by code_simp

text \<open>
  Claim C7. \<open>determineGroupType\<close> returns \<open>affinity\<close> exactly when one of the affinity
  keywords is a contiguous substring of the lower-cased name or of the lower-cased
  description, and \<open>community\<close> otherwise; its result depends on the name and the description
  only; it is \<open>affinity\<close> for the name "Young Adult Professionals" (whatever the
  description) and \<open>community\<close> for the name "Bethesda Community Group" with the description
  "families and individuals".
\<close>

theorem determineGroupType_affinity_iff:
  "(determineGroupType a = affinity \<longleftrightarrow>
      (\<exists>keyword \<in> set affinityKeywords.
         sublist keyword (toLowerCase (or_else (name_attr a) [])) \<or>
         sublist keyword (toLowerCase (or_else (description_attr a) [])))) \<and>
   (determineGroupType a \<noteq> affinity \<longrightarrow> determineGroupType a = community) \<and>
   (name_attr a = name_attr b \<and> description_attr a = description_attr b
      \<longrightarrow> determineGroupType a = determineGroupType b) \<and>
   (name_attr a = Some ''Young Adult Professionals'' \<longrightarrow> determineGroupType a = affinity) \<and>
   (name_attr a = Some ''Bethesda Community Group'' \<and>
    description_attr a = Some ''families and individuals'' \<longrightarrow> determineGroupType a = community)"
proof (intro conjI impI)
  show iff: "determineGroupType a = affinity \<longleftrightarrow>
      (\<exists>keyword \<in> set affinityKeywords.
         sublist keyword (toLowerCase (or_else (name_attr a) [])) \<or>
         sublist keyword (toLowerCase (or_else (description_attr a) [])))"
    by (simp add: determineGroupType_def Let_def list_ex_iff includes_sublist)
  show "determineGroupType a = community" if "determineGroupType a \<noteq> affinity"
    using that by (cases "determineGroupType a") simp_all
  show "determineGroupType a = determineGroupType b"
    if "name_attr a = name_attr b \<and> description_attr a = description_attr b"
    using that by (simp add: determineGroupType_def)
  show "determineGroupType a = affinity" if "name_attr a = Some ''Young Adult Professionals''"
  proof -
    have "list_ex (\<lambda>keyword. includes_str (toLowerCase ''Young Adult Professionals'') keyword \<or> includes_str (toLowerCase (or_else (description_attr a) [])) keyword) affinityKeywords"
      unfolding list_ex_iff
      by (rule bexI[where x = "''young adult''"]) (simp add: toLowerCase_sublist_eval, simp add: affinityKeywords_def)
    then show ?thesis
      using that by (simp add: determineGroupType_def or_else_def)
  qed
  show "determineGroupType a = community"
    if "name_attr a = Some ''Bethesda Community Group'' \<and>
        description_attr a = Some ''families and individuals''"
  proof -
    have "\<not> list_ex (\<lambda>keyword. includes_str (toLowerCase ''Bethesda Community Group'') keyword \<or>
              includes_str (toLowerCase ''families and individuals'') keyword) affinityKeywords"
      by code_simp
    then show ?thesis
      using that by (simp add: determineGroupType_def or_else_def)
  qed
qed

theorem determineGroupType_affinity_iff_witness:
  "name_attr bethesda_attrs = Some ''Bethesda Community Group'' \<and>
   description_attr bethesda_attrs = Some ''families and individuals'' \<and>
   determineGroupType bethesda_attrs \<noteq> affinity \<and>
   determineGroupType bethesda_attrs = community \<and>
   \<not> (\<exists>keyword \<in> set affinityKeywords.
         sublist keyword (toLowerCase (or_else (name_attr bethesda_attrs) [])) \<or>
         sublist keyword (toLowerCase (or_else (description_attr bethesda_attrs) [])))"
proof -
  note spec = determineGroupType_affinity_iff [of bethesda_attrs bethesda_attrs]
  have n: "name_attr bethesda_attrs = Some ''Bethesda Community Group''"
    and d: "description_attr bethesda_attrs = Some ''families and individuals''"
    by (simp_all add: bethesda_attrs_def empty_attrs_def)
  from spec n d have c: "determineGroupType bethesda_attrs = community"
    by blast
  then have na: "determineGroupType bethesda_attrs \<noteq> affinity"
    by simp
  with spec have "\<not> (\<exists>keyword \<in> set affinityKeywords.
         sublist keyword (toLowerCase (or_else (name_attr bethesda_attrs) [])) \<or>
         sublist keyword (toLowerCase (or_else (description_attr bethesda_attrs) [])))"
    by blast
  with n d c na show ?thesis
    by blast
qed

subsection \<open>Geocoding\<close>

lemma dmv_keys:
  "map fst dmvLocations =
     [''dupont circle'', ''dupont'', ''adams morgan'', ''capitol hill'', ''columbia heights'',
      ''shaw'', ''petworth'', ''brookland'', ''anacostia'', ''foggy bottom'', ''georgetown'',
      ''logan circle'', ''u street'', ''h street'', ''navy yard'', ''downtown'', ''chinatown'',
      ''washington dc'', ''washington'', ''dc'', ''arlington'', ''alexandria'', ''fairfax'',
      ''vienna'', ''reston'', ''sterling'', ''annandale'', ''falls church'', ''tysons'',
      ''leesburg'', ''herndon'', ''mclean'', ''springfield'', ''burke'', ''woodbridge'',
      ''manassas'', ''bethesda'', ''rockville'', ''silver spring'', ''takoma park'',
      ''college park'', ''hyattsville'', ''gaithersburg'', ''germantown'', ''wheaton'',
      ''kensington'', ''chevy chase'', ''potomac'', ''bowie'', ''laurel'', ''greenbelt'',
      ''riverdale'']"
  by (simp add: dmvLocations_def)

lemma distinct_dmvLocations: "distinct (map fst dmvLocations)"
  unfolding dmv_keys by code_simp

lemma dmv_key_set: "fst ` set dmvLocations = set (map fst dmvLocations)"
  by simp

lemma geocodeLocation_raises_iff:
  "(\<exists>e. geocodeLocation s rs n = Inl e) \<longleftrightarrow>
     map_of dmvLocations (trim (toLowerCase s)) = None \<and>
     trim (toLowerCase s) \<in> set object_prototype_properties"
  by (auto simp: geocodeLocation_def Let_def split: option.splits prod.splits)

lemma geocodeLocation_raises_TypeError:
  "geocodeLocation s rs n = Inl e \<Longrightarrow> e = TypeError"
  by (auto simp: geocodeLocation_def Let_def split: option.splits prod.splits if_splits)

lemma geocodeLocation_unfold:
  "geocodeLocation s rs n =
     (case map_of dmvLocations (trim (toLowerCase s)) of
        Some c \<Rightarrow> Inr (addRandomOffset c rs n)
      | None \<Rightarrow>
          if trim (toLowerCase s) \<in> set object_prototype_properties then Inl TypeError
          else
            (case find (\<lambda>pc. matches_place (trim (toLowerCase s)) (fst pc)) dmvLocations of
               Some pc \<Rightarrow> Inr (addRandomOffset (snd pc) rs n)
             | None \<Rightarrow>
                 Inr (addRandomOffset
                        (if sublist ''virginia'' (trim (toLowerCase s)) \<or>
                            sublist ''va'' (trim (toLowerCase s))
                         then (js_number 38.8816, js_number (-77.0910))
                         else if sublist ''maryland'' (trim (toLowerCase s)) \<or>
                                 sublist ''md'' (trim (toLowerCase s))
                         then (js_number 38.9907, js_number (-77.0261))
                         else (js_number 38.9072, js_number (-77.0369))) rs n)))"
proof -
  have "(\<lambda>(place, coords :: coords).
           includes_str (trim (toLowerCase s)) place \<or> includes_str place (trim (toLowerCase s)))
        = (\<lambda>pc. matches_place (trim (toLowerCase s)) (fst pc))"
    by (rule ext) (simp add: matches_place_def includes_sublist split: prod.splits)
  then show ?thesis
    unfolding geocodeLocation_def Let_def includes_sublist
    by (simp split: option.splits prod.splits)
qed

lemma find_first:
  "i < length xs \<Longrightarrow> P (xs ! i) \<Longrightarrow> \<forall>j < i. \<not> P (xs ! j) \<Longrightarrow> find P xs = Some (xs ! i)"
  unfolding find_Some_iff by blast

lemma find_no_match: "\<forall>x \<in> set xs. \<not> P x \<Longrightarrow> find P xs = None"
  unfolding find_None_iff by blast

lemma geocodeLocation_exact:
  assumes "(trim (toLowerCase s), c) \<in> set dmvLocations"
  shows "geocodeLocation s rs n = Inr (addRandomOffset c rs n)"
proof -
  from assms distinct_dmvLocations have "map_of dmvLocations (trim (toLowerCase s)) = Some c"
    by (rule_tac map_of_is_SomeI)
  then show ?thesis
    by (simp only: geocodeLocation_unfold option.case)
qed

lemma geocodeLocation_inherited:
  assumes "trim (toLowerCase s) \<notin> fst ` set dmvLocations"
    and "trim (toLowerCase s) \<in> set object_prototype_properties"
  shows "geocodeLocation s rs n = Inl TypeError"
proof -
  from assms(1) have "map_of dmvLocations (trim (toLowerCase s)) = None"
    by (simp only: map_of_eq_None_iff not_False_eq_True)
  with assms(2) show ?thesis
    by (simp only: geocodeLocation_unfold option.case if_True)
qed

lemma geocodeLocation_partial:
  assumes "trim (toLowerCase s) \<notin> fst ` set dmvLocations"
    and "trim (toLowerCase s) \<notin> set object_prototype_properties"
    and "i < length dmvLocations"
    and "matches_place (trim (toLowerCase s)) (fst (dmvLocations ! i))"
    and "\<forall>j < i. \<not> matches_place (trim (toLowerCase s)) (fst (dmvLocations ! j))"
  shows "geocodeLocation s rs n = Inr (addRandomOffset (snd (dmvLocations ! i)) rs n)"
proof -
  from assms(1) have "map_of dmvLocations (trim (toLowerCase s)) = None"
    by (simp only: map_of_eq_None_iff not_False_eq_True)
  moreover have "find (\<lambda>pc. matches_place (trim (toLowerCase s)) (fst pc)) dmvLocations
      = Some (dmvLocations ! i)"
    using assms(3,4,5) by (rule find_first)
  ultimately show ?thesis
    using assms(2) by (simp only: geocodeLocation_unfold option.case if_False)
qed

lemma geocodeLocation_state_fallback:
  assumes "trim (toLowerCase s) \<notin> fst ` set dmvLocations"
    and "trim (toLowerCase s) \<notin> set object_prototype_properties"
    and "\<forall>place \<in> fst ` set dmvLocations. \<not> matches_place (trim (toLowerCase s)) place"
  shows "geocodeLocation s rs n =
           Inr (addRandomOffset
                  (if sublist ''virginia'' (trim (toLowerCase s)) \<or>
                      sublist ''va'' (trim (toLowerCase s))
                   then (js_number 38.8816, js_number (-77.0910))
                   else if sublist ''maryland'' (trim (toLowerCase s)) \<or>
                           sublist ''md'' (trim (toLowerCase s))
                   then (js_number 38.9907, js_number (-77.0261))
                   else (js_number 38.9072, js_number (-77.0369))) rs n)"
proof -
  from assms(1) have "map_of dmvLocations (trim (toLowerCase s)) = None"
    by (simp only: map_of_eq_None_iff not_False_eq_True)
  moreover from assms(3)
  have "find (\<lambda>pc. matches_place (trim (toLowerCase s)) (fst pc)) dmvLocations = None"
    by (intro find_no_match) auto
  ultimately show ?thesis
    using assms(2) by (simp only: geocodeLocation_unfold option.case if_False)
qed

text \<open>
  \<open>geocodeLocation\<close> is \<open>addRandomOffset\<close> applied to the anchor that the lookup selects.
\<close>

lemma geocodeLocation_anchor:
  "geocodeLocation s rs n =
     (case geocode_anchor s of
        None \<Rightarrow> Inl TypeError
      | Some c \<Rightarrow> Inr (addRandomOffset c rs n))"
  by (simp add: geocodeLocation_def geocode_anchor_def Let_def split: option.splits prod.splits)

lemma geocode_anchor_cases:
  assumes "geocode_anchor s = Some c"
  shows "c \<in> snd ` set dmvLocations"
proof -
  let ?loc = "trim (toLowerCase s)"
  have arl: "(js_number 38.8816, js_number (-77.0910)) \<in> snd ` set dmvLocations"
    and sil: "(js_number 38.9907, js_number (-77.0261)) \<in> snd ` set dmvLocations"
    and dc: "(js_number 38.9072, js_number (-77.0369)) \<in> snd ` set dmvLocations"
    by (simp_all add: dmvLocations_def)
  show ?thesis
  proof (cases "map_of dmvLocations ?loc")
    case (Some c')
    then have "(?loc, c') \<in> set dmvLocations" by (rule map_of_SomeD)
    then have "c' \<in> snd ` set dmvLocations" by force
    with Some assms show ?thesis by (auto simp: geocode_anchor_def Let_def)
  next
    case None
    show ?thesis
    proof (cases "find (\<lambda>(place, coords). includes_str ?loc place \<or> includes_str place ?loc) dmvLocations")
      case (Some pc)
      obtain p c' where pc: "pc = (p, c')" by (cases pc)
      from Some have "pc \<in> set dmvLocations"
        by (metis find_Some_iff nth_mem)
      then have "c' \<in> snd ` set dmvLocations" using pc by force
      with Some None pc assms show ?thesis
        by (auto simp: geocode_anchor_def Let_def split: if_splits)
    next
      case N2: None
      with None assms have "c = (js_number 38.8816, js_number (-77.0910)) \<or>
          c = (js_number 38.9907, js_number (-77.0261)) \<or>
          c = (js_number 38.9072, js_number (-77.0369))"
        by (auto simp: geocode_anchor_def Let_def split: if_splits)
      with arl sil dc show ?thesis
        by blast
    qed
  qed
qed

lemma geocodeLocation_source:
  assumes "geocodeLocation s rs n = Inr r"
  shows "\<exists>src \<in> snd ` set dmvLocations. r = addRandomOffset src rs n"
proof (cases "geocode_anchor s")
  case None
  with assms show ?thesis by (simp add: geocodeLocation_anchor)
next
  case (Some c)
  with assms have "r = addRandomOffset c rs n" by (simp add: geocodeLocation_anchor)
  with geocode_anchor_cases[OF Some] show ?thesis by blast
qed

lemma geocode_anchor_partial:
  assumes "trim (toLowerCase s) \<notin> set (map fst dmvLocations)"
    and "trim (toLowerCase s) \<notin> set object_prototype_properties"
    and "i < length dmvLocations"
    and "matches_place (trim (toLowerCase s)) (fst (dmvLocations ! i))"
    and "\<forall>j < i. \<not> matches_place (trim (toLowerCase s)) (fst (dmvLocations ! j))"
  shows "geocode_anchor s = Some (snd (dmvLocations ! i))"
proof -
  have eq: "(\<lambda>(place, coords :: coords).
           includes_str (trim (toLowerCase s)) place \<or> includes_str place (trim (toLowerCase s)))
        = (\<lambda>pc. matches_place (trim (toLowerCase s)) (fst pc))"
    by (rule ext) (simp add: matches_place_def includes_sublist split: prod.splits)
  from assms(1) have "map_of dmvLocations (trim (toLowerCase s)) = None"
    by (simp only: map_of_eq_None_iff dmv_key_set not_False_eq_True)
  moreover have "find (\<lambda>pc. matches_place (trim (toLowerCase s)) (fst pc)) dmvLocations
      = Some (dmvLocations ! i)"
    using assms(3,4,5) by (rule find_first)
  ultimately show ?thesis
    using assms(2) unfolding geocode_anchor_def Let_def eq
    by (simp split: prod.splits)
qed

lemma dupont_anchor:
  "geocode_anchor ''Dupont Circle, DC'' = Some (js_number 38.9097, js_number (-77.0365))"
proof -
  have l: "trim (toLowerCase ''Dupont Circle, DC'') = ''dupont circle, dc''"
    by code_simp
  have 1: "''dupont circle, dc'' \<notin> set (map fst dmvLocations)"
    unfolding dmv_keys by code_simp
  have 2: "''dupont circle, dc'' \<notin> set object_prototype_properties"
    by code_simp
  have "includes_str ''dupont circle, dc'' ''dupont circle''"
    by code_simp
  then have 3: "matches_place ''dupont circle, dc'' (fst (dmvLocations ! 0))"
    by (simp add: matches_place_def includes_sublist dmvLocations_def)
  have "geocode_anchor ''Dupont Circle, DC'' = Some (snd (dmvLocations ! 0))"
    by (rule geocode_anchor_partial) (simp_all only: l 1 2 3 not_False_eq_True, simp_all add: dmvLocations_def)
  then show ?thesis
    by (simp add: dmvLocations_def)
qed

text \<open>
  Claim C5 holds of every location string but those whose lower-cased, trimmed form is the
  name of a property that \<open>dmvLocations\<close> inherits (the lemmas above give the order
  of resolution). On the location \<open>constructor\<close>, which is no placeholder and no
  gazetteer key, \<open>geocodeLocation\<close> returns no coordinate: it raises \<open>TypeError\<close>, for
  every random source.
\<close>

theorem geocodeLocation_constructor_raises:
  "\<not> no_location_info ''constructor'' \<and>
   map_of dmvLocations (trim (toLowerCase ''constructor'')) = None \<and>
   geocodeLocation ''constructor'' rs n = Inl TypeError"
proof -
  have 1: "\<not> no_location_info ''constructor''"
    by code_simp
  have l: "trim (toLowerCase ''constructor'') = ''constructor''"
    by code_simp
  have "''constructor'' \<notin> set (map fst dmvLocations)"
    unfolding dmv_keys by code_simp
  then have 2: "map_of dmvLocations (trim (toLowerCase ''constructor'')) = None"
    unfolding l by (simp only: map_of_eq_None_iff dmv_key_set not_False_eq_True)
  have 3: "trim (toLowerCase ''constructor'') \<in> set object_prototype_properties"
    by code_simp
  from 2 3 have "\<exists>e. geocodeLocation ''constructor'' rs n = Inl e"
    by (simp only: geocodeLocation_raises_iff)
  then have "geocodeLocation ''constructor'' rs n = Inl TypeError"
    using geocodeLocation_raises_TypeError by blast
  with 1 2 show ?thesis by blast
qed

subsection \<open>Privacy fuzzer\<close>

lemma addRandomOffset_eq:
  "addRandomOffset (lat, lng) rs n =
     ((fl_add lat (jitter_offset (rs n)), fl_add lng (jitter_offset (rs (n + 1)))), n + 2)"
  by (simp add: addRandomOffset_def jitter_offset_def)

lemma addRandomOffset_snd [simp]: "snd (addRandomOffset c rs n) = n + 2"
  by (cases c) (simp add: addRandomOffset_eq)

text \<open>
  The offset of one axis: its magnitude is at most half the double of 0.0072, which is the
  double of 0.0036 and lies below 0.0036.
\<close>

lemma jitter_offset_bound:
  assumes "0 \<le> r" and "r < 1"
  shows "\<bar>jitter_offset r\<bar> \<le> 0.0036"
proof -
  define d where "d = fl_sub r (js_number 0.5)"
  define B :: real where "B = of_int 8301034833169298 * 2 powi (- 9 - 52)"
  have "(2::real) powi (- 1) = 1 / 2"
    by (simp add: power_int_minus)
  moreover have "\<bar>r - 1 / 2\<bar> \<le> 1 / 2"
    using assms by linarith
  ultimately have "\<bar>r - 1 / 2\<bar> \<le> 2 powi (- 1)"
    by simp
  then have d: "\<bar>d\<bar> \<le> 2 powi (- 1)"
    unfolding d_def fl_sub_def js_number_half by (rule round64_abs_le_pow2) simp
  have "(2::real) powi (- 61) = 2 powi (- 1 + - 60)"
    by simp
  then have s: "(2::real) powi (- 61) = 2 powi (- 1) * 2 powi (- 60)"
    by (simp only: powi2_add)
  define K :: real where "K = of_int 8301034833169298 * 2 powi (- 60)"
  have K: "0 \<le> K" by (simp add: K_def)
  have "\<bar>d * K\<bar> = \<bar>d\<bar> * K"
    using K by (simp add: abs_mult)
  also have "\<dots> \<le> 2 powi (- 1) * K"
    using d K by (intro mult_right_mono) simp_all
  also have "\<dots> = B"
    by (simp add: B_def K_def s)
  finally have dK: "\<bar>d * K\<bar> \<le> B" .
  from B_def _ _ _ dK have "\<bar>round64 (d * K)\<bar> \<le> B"
    by (rule round64_abs_le_double) simp_all
  moreover have "B \<le> 0.0036"
    by (simp add: B_def power_int_minus)
  moreover have "jitter_offset r = round64 (d * K)"
    unfolding jitter_offset_def fl_mul_def d_def K_def js_number_0072 ..
  ultimately show ?thesis
    by simp
qed



text \<open>
  The addition of an offset to a coordinate of magnitude at most 127: the sum is rounded with
  an error of at most \<open>2 ^ -47\<close>, half the spacing of the doubles between 64 and 128.
\<close>

lemma fl_add_error:
  assumes "\<bar>c\<bar> \<le> 127" and "\<bar>off\<bar> \<le> 0.0036"
  shows "\<bar>fl_add c off - (c + off)\<bar> \<le> 2 powi (- 47)"
proof -
  from assms(2) have "\<bar>off\<bar> \<le> 1 / 2"
    by simp
  with assms(1) have "\<bar>c + off\<bar> < 128"
    by linarith
  then have "\<bar>c + off\<bar> < 2 powi 7"
    by simp
  then have "\<bar>round64 (c + off) - (c + off)\<bar> \<le> 2 powi (7 - 54)"
    by (rule round64_error_below) simp
  then show ?thesis
    by (simp add: fl_add_def)
qed

lemma fl_add_near:
  assumes "\<bar>c\<bar> \<le> 127" and "\<bar>off\<bar> \<le> 0.0036"
  shows "\<bar>fl_add c off - c\<bar> \<le> 0.0036 + 2 powi (- 47)"
  using fl_add_error[OF assms] assms(2) by linarith


lemma addRandomOffset_near:
  assumes "valid_random rs" and "\<bar>fst src\<bar> \<le> 127" and "\<bar>snd src\<bar> \<le> 127"
  shows "\<bar>fst (fst (addRandomOffset src rs n)) - fst src\<bar> \<le> 0.0036 + 2 powi (- 47) \<and>
         \<bar>snd (fst (addRandomOffset src rs n)) - snd src\<bar> \<le> 0.0036 + 2 powi (- 47)"
proof -
  obtain lat lng where src: "src = (lat, lng)" by (cases src)
  have a: "0 \<le> rs n" "rs n < 1" "0 \<le> rs (n + 1)" "rs (n + 1) < 1"
    using assms(1) by (simp_all add: valid_random_def)
  from assms(2,3) have b: "\<bar>lat\<bar> \<le> 127" "\<bar>lng\<bar> \<le> 127"
    by (simp_all add: src)
  show ?thesis
    using fl_add_near[OF b(1) jitter_offset_bound[OF a(1,2)]]
          fl_add_near[OF b(2) jitter_offset_bound[OF a(3,4)]]
    by (simp add: src addRandomOffset_eq)
qed



text \<open>Every point of the two tables lies within 127 degrees of zero in both axes.\<close>

lemma gazetteer_range:
  assumes "c \<in> snd ` set dmvLocations"
  shows "\<bar>fst c\<bar> \<le> 127 \<and> \<bar>snd c\<bar> \<le> 127"
proof -
  have "\<forall>c \<in> set (map snd dmvLocations). \<bar>fst c\<bar> \<le> 127 \<and> \<bar>snd c\<bar> \<le> 127"
    by (simp add: dmvLocations_def js_number_abs_le_127)
  with assms show ?thesis by auto
qed


lemma distributionPoints_range:
  assumes "point \<in> set distributionPoints"
  shows "\<bar>fst (point_coords point)\<bar> \<le> 127 \<and> \<bar>snd (point_coords point)\<bar> \<le> 127"
proof -
  have "\<forall>c \<in> set (map point_coords distributionPoints). \<bar>fst c\<bar> \<le> 127 \<and> \<bar>snd c\<bar> \<le> 127"
    by (simp add: distributionPoints_def js_number_abs_le_127)
  with assms show ?thesis by auto
qed


text \<open>The jitter of the Dupont Circle point under draws that are all zero.\<close>

lemma valid_zero_draws: "valid_random zero_draws"
  by (simp add: valid_random_def zero_draws_def)

lemma jitter_offset_zero: "jitter_offset 0 = - (of_int 4150517416584649 * 2 powi (- 60))"
  by code_simp

lemma dupont_lat_zero:
  "fl_add (js_number 38.9097) (- (of_int 4150517416584649 * 2 powi (- 60))) = js_number 38.9061"
  by code_simp

lemma dupont_lng_zero:
  "fl_add (js_number (-77.0365)) (- (of_int 4150517416584649 * 2 powi (- 60))) =
     js_number (-77.04010000000001)"
  by code_simp

lemma dupont_lng_outside: "0.0036 < \<bar>js_number (-77.04010000000001) - js_number (-77.0365)\<bar>"
  by code_simp

lemma dupont_jitter_zero:
  "addRandomOffset (js_number 38.9097, js_number (-77.0365)) zero_draws k =
     ((js_number 38.9061, js_number (-77.04010000000001)), k + 2)"
  by (simp only: addRandomOffset_eq zero_draws_def jitter_offset_zero dupont_lat_zero dupont_lng_zero)

lemma geocode_dupont_eval:
  "geocodeLocation ''Dupont Circle, DC'' zero_draws 0 =
     Inr ((js_number 38.9061, js_number (-77.04010000000001)), 2)"
  by (simp only: geocodeLocation_anchor dupont_anchor dupont_jitter_zero option.case) simp

lemma first_distribution_point:
  "distributionPoints ! 0 =
     \<lparr> point_name = ''Dupont Circle'', point_coords = (js_number 38.9097, js_number (-77.0365)) \<rparr>"
  by (simp add: distributionPoints_def)

lemma assign_point_eval:
  "assign_point unplaced_group (distributionPoints ! 0) zero_draws 0 = (placed_group, 4)"
  unfolding first_distribution_point assign_point_def distribution_point.simps dupont_jitter_zero
  by (simp add: unplaced_group_def placed_group_def)

text \<open>
  Claim C8, as stated, fails: the sum of a coordinate and its offset is rounded to a double.
  With both draws zero, which \<open>Math.random\<close> may return, the point of Dupont Circle
  (the anchor that \<open>geocodeLocation\<close> selects for \<open>Dupont Circle, DC\<close>) is moved to the
  longitude -77.04010000000001, which is more than 0.0036 away from the longitude of the
  point.
\<close>

theorem addRandomOffset_exceeds_bound:
  "valid_random zero_draws \<and>
   geocode_anchor ''Dupont Circle, DC'' = Some (js_number 38.9097, js_number (-77.0365)) \<and>
   geocodeLocation ''Dupont Circle, DC'' zero_draws 0 =
     Inr ((js_number 38.9061, js_number (-77.04010000000001)), 2) \<and>
   fst (addRandomOffset (js_number 38.9097, js_number (-77.0365)) zero_draws 0) =
     (js_number 38.9061, js_number (-77.04010000000001)) \<and>
   0.0036 < \<bar>snd (fst (addRandomOffset (js_number 38.9097, js_number (-77.0365)) zero_draws 0))
              - js_number (-77.0365)\<bar>"
proof (intro conjI)
  show "valid_random zero_draws"
    by (rule valid_zero_draws)
  show "geocode_anchor ''Dupont Circle, DC'' = Some (js_number 38.9097, js_number (-77.0365))"
    by (rule dupont_anchor)
  show "geocodeLocation ''Dupont Circle, DC'' zero_draws 0 =
     Inr ((js_number 38.9061, js_number (-77.04010000000001)), 2)"
    by (rule geocode_dupont_eval)
  show "fst (addRandomOffset (js_number 38.9097, js_number (-77.0365)) zero_draws 0) =
     (js_number 38.9061, js_number (-77.04010000000001))"
    by (simp only: dupont_jitter_zero fst_conv)
  show "0.0036 < \<bar>snd (fst (addRandomOffset (js_number 38.9097, js_number (-77.0365)) zero_draws 0))
              - js_number (-77.0365)\<bar>"
    using dupont_lng_outside by (simp only: dupont_jitter_zero fst_conv snd_conv)
qed

text \<open>
  Claim C8, amended. With every draw of the random source in the half-open interval from 0 to
  1, \<open>addRandomOffset\<close> adds to the latitude the offset \<open>(rs n - 0.5) * 0.0072\<close> and to the
  longitude the offset \<open>(rs (n + 1) - 0.5) * 0.0072\<close>, two separate draws, each operation
  rounding to a double; each of the two offsets lies within 0.0036 of zero, and for a
  coordinate of magnitude at most 127 the returned value lies within \<open>0.0036 + 2 ^ -47\<close>
  of the input, the second term being the rounding of the sum. Consequently every coordinate
  that \<open>geocodeLocation\<close> returns is the jitter of the anchor that its lookup selects and lies
  within \<open>0.0036 + 2 ^ -47\<close> degrees of that anchor in both axes, and both coordinates that
  the distributor assigns lie within that distance, in both axes, of the distribution point.
\<close>

theorem addRandomOffset_within_rounded_bound:
  assumes "valid_random rs" and "\<bar>lat\<bar> \<le> 127" and "\<bar>lng\<bar> \<le> 127"
  shows "fst (fst (addRandomOffset (lat, lng) rs n)) = fl_add lat (jitter_offset (rs n)) \<and>
         snd (fst (addRandomOffset (lat, lng) rs n)) = fl_add lng (jitter_offset (rs (n + 1))) \<and>
         \<bar>jitter_offset (rs n)\<bar> \<le> 0.0036 \<and>
         \<bar>jitter_offset (rs (n + 1))\<bar> \<le> 0.0036 \<and>
         \<bar>fst (fst (addRandomOffset (lat, lng) rs n)) - lat\<bar> \<le> 0.0036 + 2 powi (- 47) \<and>
         \<bar>snd (fst (addRandomOffset (lat, lng) rs n)) - lng\<bar> \<le> 0.0036 + 2 powi (- 47) \<and>
         (geocodeLocation s rs n = Inr (c, n') \<longrightarrow>
            (\<exists>src. geocode_anchor s = Some src \<and> c = fst (addRandomOffset src rs n) \<and>
               \<bar>fst c - fst src\<bar> \<le> 0.0036 + 2 powi (- 47) \<and>
               \<bar>snd c - snd src\<bar> \<le> 0.0036 + 2 powi (- 47))) \<and>
         (point \<in> set distributionPoints \<and> assign_point g point rs n = (g', m) \<longrightarrow>
            (\<exists>c1 c2. loc_coordinates (location g') = Some c1 \<and> coordinates g' = Some c2 \<and>
               \<bar>fst c1 - fst (point_coords point)\<bar> \<le> 0.0036 + 2 powi (- 47) \<and>
               \<bar>snd c1 - snd (point_coords point)\<bar> \<le> 0.0036 + 2 powi (- 47) \<and>
               \<bar>fst c2 - fst (point_coords point)\<bar> \<le> 0.0036 + 2 powi (- 47) \<and>
               \<bar>snd c2 - snd (point_coords point)\<bar> \<le> 0.0036 + 2 powi (- 47)))"
proof (intro conjI impI)
  have a: "0 \<le> rs n" "rs n < 1" "0 \<le> rs (n + 1)" "rs (n + 1) < 1"
    using assms(1) by (simp_all add: valid_random_def)
  show "fst (fst (addRandomOffset (lat, lng) rs n)) = fl_add lat (jitter_offset (rs n))"
    and "snd (fst (addRandomOffset (lat, lng) rs n)) = fl_add lng (jitter_offset (rs (n + 1)))"
    by (simp_all add: addRandomOffset_eq)
  show "\<bar>jitter_offset (rs n)\<bar> \<le> 0.0036"
    using a(1,2) by (rule jitter_offset_bound)
  show "\<bar>jitter_offset (rs (n + 1))\<bar> \<le> 0.0036"
    using a(3,4) by (rule jitter_offset_bound)
  show "\<bar>fst (fst (addRandomOffset (lat, lng) rs n)) - lat\<bar> \<le> 0.0036 + 2 powi (- 47)"
    and "\<bar>snd (fst (addRandomOffset (lat, lng) rs n)) - lng\<bar> \<le> 0.0036 + 2 powi (- 47)"
    using addRandomOffset_near[OF assms(1), of "(lat, lng)" n] assms(2,3) by simp_all
next
  assume g: "geocodeLocation s rs n = Inr (c, n')"
  then obtain src where src: "geocode_anchor s = Some src"
    by (cases "geocode_anchor s") (simp_all add: geocodeLocation_anchor)
  with g have c: "c = fst (addRandomOffset src rs n)"
    by (simp add: geocodeLocation_anchor prod_eq_iff)
  from gazetteer_range[OF geocode_anchor_cases[OF src]]
  have "\<bar>fst src\<bar> \<le> 127" "\<bar>snd src\<bar> \<le> 127"
    by simp_all
  from addRandomOffset_near[OF assms(1) this, of n] src c
  show "\<exists>src. geocode_anchor s = Some src \<and> c = fst (addRandomOffset src rs n) \<and>
               \<bar>fst c - fst src\<bar> \<le> 0.0036 + 2 powi (- 47) \<and>
               \<bar>snd c - snd src\<bar> \<le> 0.0036 + 2 powi (- 47)"
    by blast
next
  assume h: "point \<in> set distributionPoints \<and> assign_point g point rs n = (g', m)"
  let ?c1 = "fst (addRandomOffset (point_coords point) rs n)"
  let ?c2 = "fst (addRandomOffset (point_coords point) rs (n + 2))"
  from h have "loc_coordinates (location g') = Some ?c1" "coordinates g' = Some ?c2"
    by (auto simp: assign_point_def Let_def prod_eq_iff split: prod.splits)
  moreover from h distributionPoints_range[of point]
  have "\<bar>fst (point_coords point)\<bar> \<le> 127" "\<bar>snd (point_coords point)\<bar> \<le> 127"
    by simp_all
  note addRandomOffset_near[OF assms(1) this, of n] addRandomOffset_near[OF assms(1) this, of "n + 2"]
  ultimately
  show "\<exists>c1 c2. loc_coordinates (location g') = Some c1 \<and> coordinates g' = Some c2 \<and>
               \<bar>fst c1 - fst (point_coords point)\<bar> \<le> 0.0036 + 2 powi (- 47) \<and>
               \<bar>snd c1 - snd (point_coords point)\<bar> \<le> 0.0036 + 2 powi (- 47) \<and>
               \<bar>fst c2 - fst (point_coords point)\<bar> \<le> 0.0036 + 2 powi (- 47) \<and>
               \<bar>snd c2 - snd (point_coords point)\<bar> \<le> 0.0036 + 2 powi (- 47)"
    by blast
qed

theorem addRandomOffset_within_rounded_bound_witness:
  "valid_random zero_draws \<and>
   \<bar>js_number 38.9097\<bar> \<le> 127 \<and> \<bar>js_number (-77.0365)\<bar> \<le> 127 \<and>
   fst (addRandomOffset (js_number 38.9097, js_number (-77.0365)) zero_draws 0) =
     (js_number 38.9061, js_number (-77.04010000000001)) \<and>
   \<bar>jitter_offset (zero_draws 0)\<bar> \<le> 0.0036 \<and>
   \<bar>jitter_offset (zero_draws (0 + 1))\<bar> \<le> 0.0036 \<and>
   \<bar>js_number 38.9061 - js_number 38.9097\<bar> \<le> 0.0036 + 2 powi (- 47) \<and>
   \<bar>js_number (-77.04010000000001) - js_number (-77.0365)\<bar> \<le> 0.0036 + 2 powi (- 47) \<and>
   geocodeLocation ''Dupont Circle, DC'' zero_draws 0 =
     Inr ((js_number 38.9061, js_number (-77.04010000000001)), 2) \<and>
   (\<exists>src. geocode_anchor ''Dupont Circle, DC'' = Some src \<and>
      (js_number 38.9061, js_number (-77.04010000000001)) = fst (addRandomOffset src zero_draws 0) \<and>
      \<bar>fst (js_number 38.9061, js_number (-77.04010000000001)) - fst src\<bar> \<le> 0.0036 + 2 powi (- 47) \<and>
      \<bar>snd (js_number 38.9061, js_number (-77.04010000000001)) - snd src\<bar> \<le> 0.0036 + 2 powi (- 47)) \<and>
   distributionPoints ! 0 \<in> set distributionPoints \<and>
   assign_point unplaced_group (distributionPoints ! 0) zero_draws 0 = (placed_group, 4) \<and>
   (\<exists>c1 c2. loc_coordinates (location placed_group) = Some c1 \<and> coordinates placed_group = Some c2 \<and>
      \<bar>fst c1 - fst (point_coords (distributionPoints ! 0))\<bar> \<le> 0.0036 + 2 powi (- 47) \<and>
      \<bar>snd c1 - snd (point_coords (distributionPoints ! 0))\<bar> \<le> 0.0036 + 2 powi (- 47) \<and>
      \<bar>fst c2 - fst (point_coords (distributionPoints ! 0))\<bar> \<le> 0.0036 + 2 powi (- 47) \<and>
      \<bar>snd c2 - snd (point_coords (distributionPoints ! 0))\<bar> \<le> 0.0036 + 2 powi (- 47))"
proof -
  have b: "\<bar>js_number 38.9097\<bar> \<le> 127" "\<bar>js_number (-77.0365)\<bar> \<le> 127"
    by (rule js_number_abs_le_127, simp)+
  note bound = addRandomOffset_within_rounded_bound [OF valid_zero_draws b,
      where n = 0 and s = "''Dupont Circle, DC''"
        and c = "(js_number 38.9061, js_number (-77.04010000000001))" and n' = 2
        and g = unplaced_group and point = "distributionPoints ! 0" and g' = placed_group and m = 4]
  have j: "fst (addRandomOffset (js_number 38.9097, js_number (-77.0365)) zero_draws 0) =
     (js_number 38.9061, js_number (-77.04010000000001))"
    by (simp only: dupont_jitter_zero fst_conv)
  have p: "distributionPoints ! 0 \<in> set distributionPoints"
    by (rule nth_mem) (simp add: distributionPoints_def)
  from bound have 1: "\<bar>jitter_offset (zero_draws 0)\<bar> \<le> 0.0036"
    and 2: "\<bar>jitter_offset (zero_draws (0 + 1))\<bar> \<le> 0.0036"
    by blast+
  from bound have "\<bar>fst (fst (addRandomOffset (js_number 38.9097, js_number (-77.0365)) zero_draws 0))
                     - js_number 38.9097\<bar> \<le> 0.0036 + 2 powi (- 47)"
    and "\<bar>snd (fst (addRandomOffset (js_number 38.9097, js_number (-77.0365)) zero_draws 0))
           - js_number (-77.0365)\<bar> \<le> 0.0036 + 2 powi (- 47)"
    by blast+
  then have 3: "\<bar>js_number 38.9061 - js_number 38.9097\<bar> \<le> 0.0036 + 2 powi (- 47)"
    and 4: "\<bar>js_number (-77.04010000000001) - js_number (-77.0365)\<bar> \<le> 0.0036 + 2 powi (- 47)"
    by (simp_all only: j fst_conv snd_conv)
  from bound geocode_dupont_eval
  have 5: "\<exists>src. geocode_anchor ''Dupont Circle, DC'' = Some src \<and>
      (js_number 38.9061, js_number (-77.04010000000001)) = fst (addRandomOffset src zero_draws 0) \<and>
      \<bar>fst (js_number 38.9061, js_number (-77.04010000000001)) - fst src\<bar> \<le> 0.0036 + 2 powi (- 47) \<and>
      \<bar>snd (js_number 38.9061, js_number (-77.04010000000001)) - snd src\<bar> \<le> 0.0036 + 2 powi (- 47)"
    by blast
  from bound p assign_point_eval
  have 6: "\<exists>c1 c2. loc_coordinates (location placed_group) = Some c1 \<and> coordinates placed_group = Some c2 \<and>
      \<bar>fst c1 - fst (point_coords (distributionPoints ! 0))\<bar> \<le> 0.0036 + 2 powi (- 47) \<and>
      \<bar>snd c1 - snd (point_coords (distributionPoints ! 0))\<bar> \<le> 0.0036 + 2 powi (- 47) \<and>
      \<bar>fst c2 - fst (point_coords (distributionPoints ! 0))\<bar> \<le> 0.0036 + 2 powi (- 47) \<and>
      \<bar>snd c2 - snd (point_coords (distributionPoints ! 0))\<bar> \<le> 0.0036 + 2 powi (- 47)"
    by blast
  from valid_zero_draws b j 1 2 3 4 geocode_dupont_eval 5 p assign_point_eval 6 show ?thesis
    by blast
qed

subsection \<open>Proxy filter\<close>

text \<open>
  Claim C10, as stated, fails on \<open>fetchGroups\<close> of src/netlify/functions/planning-center.js:
  a fetched record with \<open>archived = false\<close> and a public URL whose enrollment is closed is
  not forwarded.
\<close>

theorem fetchGroups_drops_closed_enrollment:
  "archived (attributes_or_empty closed_enrollment_group) = Some False \<and>
   fetchGroups (Responded True (Some \<lparr> data = Some [closed_enrollment_group] \<rparr>)) = Inr []"
  by (simp add: fetchGroups_def eligible_def closed_enrollment_group_def attributes_or_empty_def
      empty_attrs_def truthy_def)

lemma processGroupData_id [simp]: "raw_id (processGroupData g) = raw_id g"
  by (simp add: processGroupData_def Let_def)

lemma processGroupData_archived:
  "archived (attributes_or_empty (processGroupData g)) =
     Some (archived (attributes_or_empty g) = Some True)"
  by (simp add: processGroupData_def Let_def attributes_or_empty_def empty_attrs_def)

lemma eligible_map_eq:
  "eligible_map = (\<lambda>g. archived (attributes_or_empty g) \<noteq> Some True)"
  by (rule ext) (simp add: eligible_map_def Let_def)

lemma eligible_eq:
  "eligible = (\<lambda>g. archived (attributes_or_empty g) \<noteq> Some True \<and>
                   truthy (public_church_center_web_url (attributes_or_empty g)) \<and>
                   enrollment (attributes_or_empty g) = Some ''open'')"
  by (rule ext) (simp add: eligible_def Let_def)

text \<open>
  Claim C10, amended. On a successful upstream response, \<open>fetchGroups\<close> of src/map.js
  forwards exactly the fetched records whose \<open>archived\<close> attribute is not true (it is false
  or missing), in their order, whatever their enrollment and URL; \<open>fetchGroups\<close> of
  src/netlify/functions/planning-center.js forwards exactly those that, in addition, have a
  non-empty public Church Center URL and the enrollment \<open>open\<close>. Every forwarded record
  carries \<open>archived = false\<close>.
\<close>

theorem fetchGroups_forwarded:
  "(\<exists>out. fetchGroups_map (Responded True (Some \<lparr> data = Some fetched \<rparr>)) = Inr out \<and>
      map raw_id out =
        map raw_id (filter (\<lambda>g. archived (attributes_or_empty g) \<noteq> Some True) fetched) \<and>
      (\<forall>g \<in> set out. archived (attributes_or_empty g) = Some False)) \<and>
   (\<exists>out. fetchGroups (Responded True (Some \<lparr> data = Some fetched \<rparr>)) = Inr out \<and>
      map raw_id out =
        map raw_id (filter (\<lambda>g. archived (attributes_or_empty g) \<noteq> Some True \<and>
                                 truthy (public_church_center_web_url (attributes_or_empty g)) \<and>
                                 enrollment (attributes_or_empty g) = Some ''open'') fetched) \<and>
      (\<forall>g \<in> set out. archived (attributes_or_empty g) = Some False))"
  by (auto simp: fetchGroups_map_def fetchGroups_def eligible_map_eq eligible_eq
      comp_def processGroupData_archived)

lemma fetchGroups_map_eval:
  "fetchGroups_map (Responded True (Some \<lparr> data = Some [closed_enrollment_group, archived_group] \<rparr>))
     = Inr [processGroupData closed_enrollment_group]"
  by (simp add: fetchGroups_map_def eligible_map_def closed_enrollment_group_def archived_group_def
      attributes_or_empty_def empty_attrs_def)

theorem fetchGroups_forwarded_witness:
  "fetchGroups_map (Responded True (Some \<lparr> data = Some [closed_enrollment_group, archived_group] \<rparr>))
     = Inr [processGroupData closed_enrollment_group] \<and>
   archived (attributes_or_empty (processGroupData closed_enrollment_group)) = Some False \<and>
   fetchGroups (Responded True (Some \<lparr> data = Some [closed_enrollment_group, archived_group] \<rparr>))
     = Inr []"
proof -
  note fw = fetchGroups_forwarded [of "[closed_enrollment_group, archived_group]"]
  from fw fetchGroups_map_eval
  have "archived (attributes_or_empty (processGroupData closed_enrollment_group)) = Some False"
    by auto
  moreover have "fetchGroups (Responded True (Some \<lparr> data = Some [closed_enrollment_group, archived_group] \<rparr>))
     = Inr []"
    by (simp add: fetchGroups_def eligible_def closed_enrollment_group_def archived_group_def
      attributes_or_empty_def empty_attrs_def truthy_def)
  ultimately show ?thesis
    using fetchGroups_map_eval by simp
qed

subsection \<open>Geographic distributor\<close>

lemma assign_point_snd [simp]: "snd (assign_point g point rs n) = n + 4"
  by (cases "point_coords point") (simp add: assign_point_def addRandomOffset_eq)

lemma assign_point_fst:
  "fst (assign_point g point rs n) =
     g\<lparr> location := (location g)\<lparr> address := point_name point @ '' area'',
                                       neighborhood := point_name point,
                                       loc_coordinates := Some (fst (addRandomOffset (point_coords point) rs n)),
                                       hasSpecificLocation := True \<rparr>,
         coordinates := Some (fst (addRandomOffset (point_coords point) rs (n + 2))) \<rparr>"
  by (cases "point_coords point") (simp add: assign_point_def addRandomOffset_eq)

lemma length_distributionPoints: "length distributionPoints = 12"
  by (simp add: distributionPoints_def)

lemma distribute_from_Cons:
  "fst (distribute_from d (g # gs) rs n) =
     (if coordinates g \<noteq> None then g # fst (distribute_from d gs rs n)
      else fst (assign_point g (distributionPoints ! (d mod 12)) rs n)
             # fst (distribute_from (d + 1) gs rs (n + 4)))"
proof -
  have "\<And>g' n1. assign_point g (distributionPoints ! (d mod 12)) rs n = (g', n1) \<Longrightarrow> n1 = n + 4"
    by (metis assign_point_snd snd_conv)
  then show ?thesis
    by (auto simp: Let_def length_distributionPoints split: prod.splits)
qed

lemma distribute_from_length [simp]: "length (fst (distribute_from d gs rs n)) = length gs"
  by (induction gs arbitrary: d n) (simp_all add: distribute_from_Cons del: distribute_from.simps(2))

lemma distribute_from_nth:
  assumes "i < length gs"
  shows "fst (distribute_from d gs rs n) ! i =
     (if coordinates (gs ! i) \<noteq> None then gs ! i
      else fst (assign_point (gs ! i)
                  (distributionPoints !
                     ((d + length (filter (\<lambda>g. coordinates g = None) (take i gs))) mod 12))
                  rs (n + 4 * length (filter (\<lambda>g. coordinates g = None) (take i gs)))))"
  using assms
proof (induction gs arbitrary: d n i)
  case Nil
  then show ?case by simp
next
  case (Cons g gs)
  show ?case
  proof (cases i)
    case 0
    then show ?thesis by (simp add: distribute_from_Cons del: distribute_from.simps(2))
  next
    case (Suc j)
    with Cons.prems have j: "j < length gs" by simp
    show ?thesis
    proof (cases "coordinates g = None")
      case True
      with Suc Cons.IH[OF j, of "d + 1" "n + 4"] show ?thesis
        by (simp add: distribute_from_Cons add.assoc del: distribute_from.simps(2))
    next
      case False
      then obtain c where "coordinates g = Some c" by auto
      with Suc Cons.IH[OF j, of d n] show ?thesis
        by (simp add: distribute_from_Cons del: distribute_from.simps(2))
    qed
  qed
qed

lemma distribute_from_coordinates:
  "g \<in> set (fst (distribute_from d gs rs n)) \<Longrightarrow> coordinates g \<noteq> None"
  by (induction gs arbitrary: d n)
     (auto simp: distribute_from_Cons assign_point_fst simp del: distribute_from.simps(2) split: if_splits)

lemma distribute_from_ids:
  "map group_id (fst (distribute_from d gs rs n)) = map group_id gs"
  by (induction gs arbitrary: d n)
     (auto simp: distribute_from_Cons assign_point_fst simp del: distribute_from.simps(2))

text \<open>
  Claim C6. \<open>distributeGroupsGeographically\<close> keeps the length of its input; at every
  position \<open>i\<close>, a record with coordinates is returned unchanged, and a record without
  coordinates is replaced by the one that \<open>assign_point\<close> builds from the distribution
  point at index \<open>k mod 12\<close> of the twelve, where \<open>k\<close> counts the records without
  coordinates before position \<open>i\<close> in the whole input: its address and neighbourhood name
  the point, and both its coordinates are the point's, each with its own jitter. Of 13
  records without coordinates the 13th receives the point at index 0.
\<close>

theorem distribute_round_robin:
  assumes "i < length gs"
  shows "length (fst (distributeGroupsGeographically gs rs n)) = length gs \<and>
         length distributionPoints = 12 \<and>
         (coordinates (gs ! i) \<noteq> None \<longrightarrow>
            fst (distributeGroupsGeographically gs rs n) ! i = gs ! i) \<and>
         (coordinates (gs ! i) = None \<longrightarrow>
            (let k = length (filter (\<lambda>g. coordinates g = None) (take i gs));
                 point = distributionPoints ! (k mod 12);
                 g' = fst (distributeGroupsGeographically gs rs n) ! i
             in g' = fst (assign_point (gs ! i) point rs (n + 4 * k)) \<and>
                address (location g') = point_name point @ '' area'' \<and>
                neighborhood (location g') = point_name point \<and>
                hasSpecificLocation (location g') \<and>
                loc_coordinates (location g') =
                  Some (fst (addRandomOffset (point_coords point) rs (n + 4 * k))) \<and>
                coordinates g' =
                  Some (fst (addRandomOffset (point_coords point) rs (n + 4 * k + 2))))) \<and>
         (length gs = 13 \<and> (\<forall>g \<in> set gs. coordinates g = None) \<longrightarrow>
            neighborhood (location (fst (distributeGroupsGeographically gs rs n) ! 12)) =
              point_name (distributionPoints ! 0))"
proof (intro conjI impI)
  show "length (fst (distributeGroupsGeographically gs rs n)) = length gs"
    by (simp add: distributeGroupsGeographically_def)
  show "length distributionPoints = 12"
    by (rule length_distributionPoints)
  show "fst (distributeGroupsGeographically gs rs n) ! i = gs ! i" if "coordinates (gs ! i) \<noteq> None"
    using that distribute_from_nth[OF assms, of 0 rs n]
    by (simp add: distributeGroupsGeographically_def)
  show "let k = length (filter (\<lambda>g. coordinates g = None) (take i gs));
            point = distributionPoints ! (k mod 12);
            g' = fst (distributeGroupsGeographically gs rs n) ! i
        in g' = fst (assign_point (gs ! i) point rs (n + 4 * k)) \<and>
           address (location g') = point_name point @ '' area'' \<and>
           neighborhood (location g') = point_name point \<and>
           hasSpecificLocation (location g') \<and>
           loc_coordinates (location g') =
             Some (fst (addRandomOffset (point_coords point) rs (n + 4 * k))) \<and>
           coordinates g' =
             Some (fst (addRandomOffset (point_coords point) rs (n + 4 * k + 2)))"
    if "coordinates (gs ! i) = None"
    using that distribute_from_nth[OF assms, of 0 rs n]
    by (simp add: distributeGroupsGeographically_def Let_def assign_point_fst)
  show "neighborhood (location (fst (distributeGroupsGeographically gs rs n) ! 12)) =
          point_name (distributionPoints ! 0)"
    if h: "length gs = 13 \<and> (\<forall>g \<in> set gs. coordinates g = None)"
  proof -
    from h have l: "12 < length gs" by simp
    from h have "filter (\<lambda>g. coordinates g = None) (take 12 gs) = take 12 gs"
      by (auto simp: filter_id_conv dest: in_set_takeD)
    with h have k: "length (filter (\<lambda>g. coordinates g = None) (take 12 gs)) = 12"
      by simp
    from h l have "coordinates (gs ! 12) = None" by simp
    with distribute_from_nth[OF l, of 0 rs n] k show ?thesis
      by (simp add: distributeGroupsGeographically_def assign_point_fst)
  qed
qed

lemma unplaced_group_coordinates: "coordinates unplaced_group = None"
  by (simp add: unplaced_group_def)

lemma fallback_first:
  "0 < length getFallbackGroups" "coordinates (getFallbackGroups ! 0) \<noteq> None"
  by (simp_all add: getFallbackGroups_def del: split_paired_Ex)

theorem distribute_round_robin_witness:
  "12 < length (replicate 13 unplaced_group) \<and>
   coordinates (replicate 13 unplaced_group ! 12) = None \<and>
   length (replicate 13 unplaced_group) = 13 \<and>
   filter (\<lambda>g. coordinates g \<noteq> None) (replicate 13 unplaced_group) = [] \<and>
   neighborhood (location (fst (distributeGroupsGeographically (replicate 13 unplaced_group) zero_draws 0) ! 12))
     = ''Dupont Circle'' \<and>
   address (location (fst (distributeGroupsGeographically (replicate 13 unplaced_group) zero_draws 0) ! 12))
     = ''Dupont Circle area'' \<and>
   0 < length getFallbackGroups \<and>
   coordinates (getFallbackGroups ! 0) \<noteq> None \<and>
   fst (distributeGroupsGeographically getFallbackGroups zero_draws 0) ! 0 = getFallbackGroups ! 0"
proof -
  let ?gs = "replicate 13 unplaced_group"
  note wrap = distribute_round_robin [of 12 ?gs zero_draws 0]
  note keep = distribute_round_robin [OF fallback_first(1), of zero_draws 0]
  have k: "length (filter (\<lambda>g. coordinates g = None) (take 12 ?gs)) = 12"
    by (simp add: unplaced_group_coordinates)
  have p: "point_name (distributionPoints ! 0) = ''Dupont Circle''"
    by (simp add: distributionPoints_def)
  from wrap k p have
    "neighborhood (location (fst (distributeGroupsGeographically ?gs zero_draws 0) ! 12)) = ''Dupont Circle''"
    "address (location (fst (distributeGroupsGeographically ?gs zero_draws 0) ! 12)) = ''Dupont Circle area''"
    by (simp_all add: unplaced_group_coordinates Let_def assign_point_fst)
  moreover from keep fallback_first(2)
  have "fst (distributeGroupsGeographically getFallbackGroups zero_draws 0) ! 0 = getFallbackGroups ! 0"
    by blast
  moreover have "coordinates (replicate 13 unplaced_group ! 12) = None"
    and "filter (\<lambda>g. coordinates g \<noteq> None) (replicate 13 unplaced_group) = []"
    by (simp_all add: unplaced_group_coordinates)
  ultimately show ?thesis
    using fallback_first by simp
qed

subsection \<open>Total coverage\<close>

lemma processGroup_fields:
  assumes "processGroup g rs n = Inr (r, n')"
  shows "group_id r = raw_id g \<and> isActive r = (archived (attributes_or_empty g) = Some False)"
  using assms by (auto simp: processGroup_def Let_def split: sum.splits prod.splits)

lemma processGroups_map_active_ids:
  assumes "processGroups_map rawGroups rs n = Inr (out, n')"
  shows "map group_id (filter isActive out) =
         map raw_id (filter (\<lambda>g. archived (attributes_or_empty g) = Some False) rawGroups)"
  using assms
proof (induction rawGroups arbitrary: n out)
  case Nil
  then show ?case by simp
next
  case (Cons g gs)
  from Cons.prems obtain r n1 rest where
    r: "processGroup g rs n = Inr (r, n1)" and
    rest: "processGroups_map gs rs n1 = Inr (rest, n')" and
    out: "out = r # rest"
    by (auto split: sum.splits prod.splits)
  from Cons.IH[OF rest] processGroup_fields[OF r] out show ?case
    by simp
qed

lemma processGroups_active_ids:
  assumes "processGroups rawGroups rs n = Inr (processed, n')"
  shows "map group_id processed =
         map raw_id (filter (\<lambda>g. archived (attributes_or_empty g) = Some False) rawGroups)"
  using assms processGroups_map_active_ids
  by (auto simp: processGroups_def split: sum.splits prod.splits)

lemma fallback_coordinates: "g \<in> set getFallbackGroups \<Longrightarrow> coordinates g \<noteq> None"
  by (auto simp: getFallbackGroups_def simp del: split_paired_Ex)

lemma getGroups_try_catch_coordinates:
  assumes "g \<in> set (getGroups_try_catch env rs n)"
  shows "coordinates g \<noteq> None"
proof (cases "getGroups_try_block env rs n")
  case (Inl e)
  with assms show ?thesis
    by (simp add: getGroups_try_catch_def fallback_coordinates)
next
  case (Inr result)
  then obtain processed n' where
    "result = fst (distributeGroupsGeographically processed rs n')"
    by (auto simp: getGroups_try_block_def split: fetch_outcome.splits if_splits option.splits
        sum.splits prod.splits)
  with Inr assms show ?thesis
    by (simp add: getGroups_try_catch_def distributeGroupsGeographically_def
        distribute_from_coordinates)
qed

text \<open>
  What the \<open>try\<close> statement of \<open>getGroups\<close> yields: every record of its result has
  coordinates, be it the processed batch or the fallback list. When \<open>processGroups\<close>
  returns, \<open>distributeGroupsGeographically\<close> applied to its result yields exactly the raw
  records with \<open>archived === false\<close>, in their order (none is dropped for want of a
  location), each with coordinates, and every record that \<open>processGroups\<close> left without
  coordinates carries the jittered coordinate of a distribution point.
\<close>

lemma try_statement_coordinates_total:
  "(\<forall>g \<in> set (getGroups_try_catch env rs n). coordinates g \<noteq> None) \<and>
   (processGroups rawGroups rs n = Inr (processed, n') \<longrightarrow>
      map group_id (fst (distributeGroupsGeographically processed rs n')) =
        map raw_id (filter (\<lambda>g. archived (attributes_or_empty g) = Some False) rawGroups) \<and>
      (\<forall>g \<in> set (fst (distributeGroupsGeographically processed rs n')). coordinates g \<noteq> None) \<and>
      (\<forall>i < length processed. coordinates (processed ! i) = None \<longrightarrow>
         (\<exists>point \<in> set distributionPoints. \<exists>m.
            coordinates (fst (distributeGroupsGeographically processed rs n') ! i) =
              Some (fst (addRandomOffset (point_coords point) rs m)))))"
proof (intro conjI impI ballI allI)
  fix g assume "g \<in> set (getGroups_try_catch env rs n)"
  then show "coordinates g \<noteq> None"
    by (rule getGroups_try_catch_coordinates)
next
  assume "processGroups rawGroups rs n = Inr (processed, n')"
  then show "map group_id (fst (distributeGroupsGeographically processed rs n')) =
        map raw_id (filter (\<lambda>g. archived (attributes_or_empty g) = Some False) rawGroups)"
    by (simp add: distributeGroupsGeographically_def distribute_from_ids processGroups_active_ids)
next
  fix g assume "g \<in> set (fst (distributeGroupsGeographically processed rs n'))"
  then show "coordinates g \<noteq> None"
    by (simp add: distributeGroupsGeographically_def distribute_from_coordinates)
next
  fix i assume i: "i < length processed" and c: "coordinates (processed ! i) = None"
  let ?k = "length (filter (\<lambda>g. coordinates g = None) (take i processed))"
  let ?point = "distributionPoints ! ((0 + ?k) mod 12)"
  have "?point \<in> set distributionPoints"
    by (rule nth_mem) (simp add: length_distributionPoints)
  moreover from distribute_from_nth[OF i, of 0 rs n'] c
  have "coordinates (fst (distributeGroupsGeographically processed rs n') ! i) =
          Some (fst (addRandomOffset (point_coords ?point) rs (n' + 4 * ?k + 2)))"
    by (simp add: distributeGroupsGeographically_def assign_point_fst)
  ultimately show "\<exists>point \<in> set distributionPoints. \<exists>m.
            coordinates (fst (distributeGroupsGeographically processed rs n') ! i) =
              Some (fst (addRandomOffset (point_coords point) rs m))"
    by blast
qed

text \<open>
  The response \<open>live_env\<close> carries one active group, \<open>g-1\<close>, that has a name and no
  location field. \<open>processGroups\<close> makes the record \<open>unplaced_group\<close> of it and draws no
  random number, and the \<open>try\<close> statement returns it with the jittered coordinate of the
  first distribution point.
\<close>

lemma book_club_evals:
  "extractLocationFromName (Some ''Book Club'') = None"
  "no_location_info []"
  "determineGroupType (empty_attrs\<lparr> name_attr := Some ''Book Club'', archived := Some False \<rparr>)
     = affinity"
  by code_simp+

lemma processGroup_no_location:
  "processGroup no_location_raw rs n = Inr (unplaced_group, n)"
proof -
  let ?a = "empty_attrs\<lparr> name_attr := Some ''Book Club'', archived := Some False \<rparr>"
  have a: "attributes_or_empty no_location_raw = ?a"
    by (simp add: no_location_raw_def attributes_or_empty_def)
  have o: "locationOptions ?a = []"
    by (simp add: locationOptions_def empty_attrs_def truthy_def)
  have n: "name_attr ?a = Some ''Book Club''"
    by (simp add: empty_attrs_def)
  have e: "extractLocation ?a rs n =
      Inr (\<lparr> address = ''Contact for meeting location'', neighborhood = ''DMV Area'',
             loc_coordinates = None, hasSpecificLocation = False \<rparr>, n)"
    unfolding extractLocation_def Let_def o n by (simp add: book_club_evals or_else_def)
  show ?thesis
    unfolding processGroup_def Let_def a e
    by (simp add: book_club_evals(3) unplaced_group_def no_location_raw_def)
       (simp add: empty_attrs_def or_else_def truthy_def)
qed

lemma processGroups_no_location:
  "processGroups [no_location_raw] rs n = Inr ([unplaced_group], n)"
  by (simp add: processGroups_def processGroup_no_location unplaced_group_def)

lemma getGroups_try_catch_live:
  "getGroups_try_catch live_env rs n =
     [fst (assign_point unplaced_group (distributionPoints ! 0) rs n)]"
  by (simp add: getGroups_try_catch_def getGroups_try_block_def live_env_def truthy_def
      processGroups_no_location distributeGroupsGeographically_def distribute_from_Cons
      unplaced_group_coordinates del: distribute_from.simps(2))

text \<open>
  Claim C1 does not hold of \<open>getGroups\<close> as it is written. On the response \<open>live_env\<close>,
  whose one group \<open>g-1\<close> is active and has no location, \<open>getGroups\<close> returns the five
  records of the built-in list and \<open>g-1\<close> is not among them: the statement
  \<open>return this.getFallbackGroups()\<close> of line 248, which its comment calls temporary, comes
  before the \<open>try\<close> statement. The \<open>try\<close> statement below it does what the claim says:
  on the same response it yields \<open>g-1\<close> with the jittered coordinate of the first
  distribution point. This holds for every random source.
\<close>

theorem getGroups_drops_live_records:
  "map raw_id (filter (\<lambda>g. archived (attributes_or_empty g) = Some False) [no_location_raw]) =
     [''g-1''] \<and>
   map group_id (getGroups live_env rs n) =
     [''fallback-1'', ''fallback-2'', ''fallback-3'', ''fallback-4'', ''fallback-5''] \<and>
   ''g-1'' \<notin> set (map group_id (getGroups live_env rs n)) \<and>
   map group_id (getGroups_try_catch live_env rs n) = [''g-1''] \<and>
   map coordinates (getGroups_try_catch live_env rs n) =
     [Some (fst (addRandomOffset (point_coords (distributionPoints ! 0)) rs (n + 2)))]"
proof (intro conjI)
  show "map raw_id (filter (\<lambda>g. archived (attributes_or_empty g) = Some False) [no_location_raw]) =
     [''g-1'']"
    by (simp add: no_location_raw_def attributes_or_empty_def empty_attrs_def)
  show ids: "map group_id (getGroups live_env rs n) =
     [''fallback-1'', ''fallback-2'', ''fallback-3'', ''fallback-4'', ''fallback-5'']"
    by (simp add: getGroups_def return_or_continue_def getFallbackGroups_def)
  show "''g-1'' \<notin> set (map group_id (getGroups live_env rs n))"
    unfolding ids by simp
  show "map group_id (getGroups_try_catch live_env rs n) = [''g-1'']"
    by (simp add: getGroups_try_catch_live assign_point_fst unplaced_group_def)
  show "map coordinates (getGroups_try_catch live_env rs n) =
     [Some (fst (addRandomOffset (point_coords (distributionPoints ! 0)) rs (n + 2)))]"
    by (simp add: getGroups_try_catch_live assign_point_fst)
qed

subsection \<open>Fallback on a failed fetch\<close>

lemma fallback_texts:
  "map (\<lambda>g. (name g, description g, groupType g)) getFallbackGroups =
     [(''Dupont Circle Community Group'',
       ''Weekly gathering for authentic community and spiritual growth'', community),
      (''Young Adult Professionals'',
       ''Affinity group for young professionals navigating faith and career'', affinity),
      (''Columbia Heights Community Group'',
       ''Diverse community group focused on justice and service'', community),
      (''LGBTQ+ Affinity Group'', ''Safe space for LGBTQ+ members and allies'', affinity),
      (''Bethesda Community Group'',
       ''Suburban community group for families and individuals'', community)]"
  by (simp add: getFallbackGroups_def)

lemma determineGroupType_lowered:
  assumes "toLowerCase n = lname" and "toLowerCase d = ldesc"
  shows "determineGroupType (empty_attrs\<lparr> name_attr := Some n, description_attr := Some d \<rparr>) =
           (if list_ex (\<lambda>keyword. includes_str lname keyword \<or> includes_str ldesc keyword) affinityKeywords
            then affinity else community)"
  using assms by (cases n; cases d) (simp_all add: determineGroupType_def or_else_def empty_attrs_def)

lemma fallback_1_type:
  "determineGroupType (empty_attrs\<lparr> name_attr := Some ''Dupont Circle Community Group'',
      description_attr := Some ''Weekly gathering for authentic community and spiritual growth'' \<rparr>)
   = community"
proof -
  have n: "toLowerCase ''Dupont Circle Community Group'' = ''dupont circle community group''"
    by code_simp
  have d: "toLowerCase ''Weekly gathering for authentic community and spiritual growth''
             = ''weekly gathering for authentic community and spiritual growth''"
    by code_simp
  have "\<not> list_ex (\<lambda>keyword. includes_str ''dupont circle community group'' keyword \<or>
          includes_str ''weekly gathering for authentic community and spiritual growth'' keyword)
        affinityKeywords"
    by code_simp
  then show ?thesis
    by (simp only: determineGroupType_lowered[OF n d] if_False)
qed

lemma fallback_2_type:
  "determineGroupType (empty_attrs\<lparr> name_attr := Some ''Young Adult Professionals'',
      description_attr := Some ''Affinity group for young professionals navigating faith and career'' \<rparr>)
   = affinity"
proof -
  have n: "toLowerCase ''Young Adult Professionals'' = ''young adult professionals''"
    by code_simp
  have d: "toLowerCase ''Affinity group for young professionals navigating faith and career''
             = ''affinity group for young professionals navigating faith and career''"
    by code_simp
  have "list_ex (\<lambda>keyword. includes_str ''young adult professionals'' keyword \<or>
          includes_str ''affinity group for young professionals navigating faith and career'' keyword)
        affinityKeywords"
    by code_simp
  then show ?thesis
    by (simp only: determineGroupType_lowered[OF n d] if_True)
qed

lemma fallback_3_type:
  "determineGroupType (empty_attrs\<lparr> name_attr := Some ''Columbia Heights Community Group'',
      description_attr := Some ''Diverse community group focused on justice and service'' \<rparr>)
   = community"
proof -
  have n: "toLowerCase ''Columbia Heights Community Group'' = ''columbia heights community group''"
    by code_simp
  have d: "toLowerCase ''Diverse community group focused on justice and service''
             = ''diverse community group focused on justice and service''"
    by code_simp
  have "\<not> list_ex (\<lambda>keyword. includes_str ''columbia heights community group'' keyword \<or>
          includes_str ''diverse community group focused on justice and service'' keyword)
        affinityKeywords"
    by code_simp
  then show ?thesis
    by (simp only: determineGroupType_lowered[OF n d] if_False)
qed

lemma fallback_4_type:
  "determineGroupType (empty_attrs\<lparr> name_attr := Some ''LGBTQ+ Affinity Group'',
      description_attr := Some ''Safe space for LGBTQ+ members and allies'' \<rparr>)
   = affinity"
proof -
  have n: "toLowerCase ''LGBTQ+ Affinity Group'' = ''lgbtq+ affinity group''"
    by code_simp
  have d: "toLowerCase ''Safe space for LGBTQ+ members and allies''
             = ''safe space for lgbtq+ members and allies''"
    by code_simp
  have "list_ex (\<lambda>keyword. includes_str ''lgbtq+ affinity group'' keyword \<or>
          includes_str ''safe space for lgbtq+ members and allies'' keyword)
        affinityKeywords"
    by code_simp
  then show ?thesis
    by (simp only: determineGroupType_lowered[OF n d] if_True)
qed

lemma fallback_5_type:
  "determineGroupType (empty_attrs\<lparr> name_attr := Some ''Bethesda Community Group'',
      description_attr := Some ''Suburban community group for families and individuals'' \<rparr>)
   = community"
proof -
  have n: "toLowerCase ''Bethesda Community Group'' = ''bethesda community group''"
    by code_simp
  have d: "toLowerCase ''Suburban community group for families and individuals''
             = ''suburban community group for families and individuals''"
    by code_simp
  have "\<not> list_ex (\<lambda>keyword. includes_str ''bethesda community group'' keyword \<or>
          includes_str ''suburban community group for families and individuals'' keyword)
        affinityKeywords"
    by code_simp
  then show ?thesis
    by (simp only: determineGroupType_lowered[OF n d] if_False)
qed

lemma fallback_texts_classified:
  "list_all (\<lambda>(n, d, t). determineGroupType (empty_attrs\<lparr> name_attr := Some n,
                                                            description_attr := Some d \<rparr>) = t)
     [(''Dupont Circle Community Group'',
       ''Weekly gathering for authentic community and spiritual growth'', community),
      (''Young Adult Professionals'',
       ''Affinity group for young professionals navigating faith and career'', affinity),
      (''Columbia Heights Community Group'',
       ''Diverse community group focused on justice and service'', community),
      (''LGBTQ+ Affinity Group'', ''Safe space for LGBTQ+ members and allies'', affinity),
      (''Bethesda Community Group'',
       ''Suburban community group for families and individuals'', community)]"
  using fallback_1_type fallback_2_type fallback_3_type fallback_4_type fallback_5_type
  by simp

lemma fallback_groupTypes:
  "list_all (\<lambda>g. groupType g =
       determineGroupType (empty_attrs\<lparr> name_attr := Some (name g),
                                        description_attr := Some (description g) \<rparr>))
     getFallbackGroups"
proof -
  have "list_all (\<lambda>(n, d, t). determineGroupType (empty_attrs\<lparr> name_attr := Some n,
                                                            description_attr := Some d \<rparr>) = t)
          (map (\<lambda>g. (name g, description g, groupType g)) getFallbackGroups)"
    unfolding fallback_texts by (rule fallback_texts_classified)
  then show ?thesis
    by (auto simp: list_all_iff)
qed

lemma length_getFallbackGroups: "length getFallbackGroups = 5"
  by (simp add: getFallbackGroups_def)

text \<open>
  Claim C3. When the fetch fails (the request is rejected, the status is not OK, or the body
  carries an \<open>error\<close> field), \<open>getGroups\<close> returns the fallback list, and so does its
  \<open>try\<close> statement through the \<open>catch\<close> clause. The list has five records; each has
  coordinates, and the \<open>groupType\<close> written in each is the one that \<open>determineGroupType\<close>
  computes from the record's name and description.
\<close>

theorem getGroups_fetch_failure:
  assumes "env = Rejected \<or> (\<exists>body. env = Responded False body) \<or>
           (\<exists>d. env = Responded True (Some d) \<and> truthy (error d))"
  shows "getGroups env rs n = getFallbackGroups \<and>
         getGroups_try_catch env rs n = getFallbackGroups \<and>
         length getFallbackGroups = 5 \<and>
         (\<forall>g \<in> set getFallbackGroups.
            coordinates g \<noteq> None \<and>
            groupType g =
              determineGroupType (empty_attrs\<lparr> name_attr := Some (name g),
                                               description_attr := Some (description g) \<rparr>))"
proof (intro conjI ballI)
  show "getGroups env rs n = getFallbackGroups"
    by (simp add: getGroups_def return_or_continue_def)
  from assms have "\<exists>e. getGroups_try_block env rs n = Inl e"
    by (auto simp: getGroups_try_block_def)
  then show "getGroups_try_catch env rs n = getFallbackGroups"
    by (auto simp: getGroups_try_catch_def)
  show "length getFallbackGroups = 5"
    by (rule length_getFallbackGroups)
next
  fix g assume g: "g \<in> set getFallbackGroups"
  then show "coordinates g \<noteq> None"
    by (rule fallback_coordinates)
  from g fallback_groupTypes
  show "groupType g =
          determineGroupType (empty_attrs\<lparr> name_attr := Some (name g),
                                           description_attr := Some (description g) \<rparr>)"
    unfolding list_all_iff by blast
qed

theorem getGroups_fetch_failure_witness:
  "getGroups Rejected zero_draws 0 = getFallbackGroups \<and>
   getGroups_try_catch Rejected zero_draws 0 = getFallbackGroups \<and>
   getGroups_try_catch (Responded False None) zero_draws 0 = getFallbackGroups \<and>
   truthy (error proxy_error_body) \<and>
   getGroups_try_catch (Responded True (Some proxy_error_body)) zero_draws 0 = getFallbackGroups \<and>
   length getFallbackGroups = 5 \<and>
   list_all (\<lambda>g. coordinates g \<noteq> None \<and>
                 groupType g =
                   determineGroupType (empty_attrs\<lparr> name_attr := Some (name g),
                                                    description_attr := Some (description g) \<rparr>))
     getFallbackGroups"
proof -
  have t: "truthy (error proxy_error_body)"
    by (simp add: proxy_error_body_def truthy_def)
  note rejected = getGroups_fetch_failure [of Rejected zero_draws 0]
  note not_ok = getGroups_fetch_failure [of "Responded False None" zero_draws 0]
  note proxy_error = getGroups_fetch_failure [of "Responded True (Some proxy_error_body)" zero_draws 0]
  from rejected have 1: "getGroups Rejected zero_draws 0 = getFallbackGroups"
    and 2: "getGroups_try_catch Rejected zero_draws 0 = getFallbackGroups"
    and 3: "length getFallbackGroups = 5"
    and 4: "list_all (\<lambda>g. coordinates g \<noteq> None \<and>
                 groupType g =
                   determineGroupType (empty_attrs\<lparr> name_attr := Some (name g),
                                                    description_attr := Some (description g) \<rparr>))
     getFallbackGroups"
    unfolding list_all_iff by blast+
  from not_ok have 5: "getGroups_try_catch (Responded False None) zero_draws 0 = getFallbackGroups"
    by blast
  from proxy_error t
  have 6: "getGroups_try_catch (Responded True (Some proxy_error_body)) zero_draws 0 = getFallbackGroups"
    by blast
  from 1 2 3 4 5 6 t show ?thesis
    by blast
qed

subsection \<open>Literal and jittered coordinates\<close>













subsection \<open>Location resolver\<close>

text \<open>
  Claim C4, as stated, fails: with the candidates \<open>DMV Area\<close> and \<open>Dupont Circle\<close>, in
  this order, the first candidate that is no placeholder is \<open>Dupont Circle\<close>, yet
  \<open>extractLocation\<close> returns the record without a location.
\<close>

theorem extractLocation_ignores_later_candidates:
  "locationOptions dmv_then_dupont_attrs = [''DMV Area'', ''Dupont Circle''] \<and>
   find (\<lambda>s. \<not> no_location_info s) (locationOptions dmv_then_dupont_attrs) = Some ''Dupont Circle'' \<and>
   extractLocation dmv_then_dupont_attrs zero_draws 0 =
     Inr (\<lparr> address = ''Contact for meeting location'', neighborhood = ''DMV Area'',
            loc_coordinates = None, hasSpecificLocation = False \<rparr>, 0)"
  by code_simp

lemma first_truthy:
  "(case map the (filter truthy xs) of [] \<Rightarrow> [] | s # rest \<Rightarrow> s) =
   (case find truthy xs of Some (Some s) \<Rightarrow> s | _ \<Rightarrow> [])"
  by (induction xs) (auto simp: truthy_def split: option.splits)

lemma keywords_meaningful:
  "list_all (\<lambda>k. \<not> no_location_info k \<and> k \<noteq> [] \<and>
                 trim (toLowerCase k) \<notin> set object_prototype_properties) locationKeywords"
  by code_simp

lemma keyword_geocodes:
  assumes "k \<in> set locationKeywords"
  shows "\<exists>src \<in> snd ` set dmvLocations. geocodeLocation k rs n = Inr (addRandomOffset src rs n)"
proof -
  from assms keywords_meaningful
  have "trim (toLowerCase k) \<notin> set object_prototype_properties"
    unfolding list_all_iff by blast
  then have "\<not> (\<exists>e. geocodeLocation k rs n = Inl e)"
    by (simp only: geocodeLocation_raises_iff) blast
  then obtain r where "geocodeLocation k rs n = Inr r"
    by (cases "geocodeLocation k rs n") auto
  with geocodeLocation_source show ?thesis
    by blast
qed

lemma extractLocationFromName_iff:
  "extractLocationFromName nm = Some keyword \<longleftrightarrow>
     (\<exists>s. nm = Some s \<and> s \<noteq> [] \<and>
        (\<exists>i < length locationKeywords. locationKeywords ! i = keyword \<and>
           sublist keyword (toLowerCase s) \<and>
           (\<forall>j < i. \<not> sublist (locationKeywords ! j) (toLowerCase s))))"
  by (cases nm) (auto simp: extractLocationFromName_def truthy_def find_Some_iff includes_sublist)

lemma extractLocation_by_name:
  assumes "no_location_info (case locationOptions a of [] \<Rightarrow> [] | s # rest \<Rightarrow> s)"
    and "extractLocationFromName (name_attr a) = Some keyword"
  shows "\<exists>src \<in> snd ` set dmvLocations.
           extractLocation a rs n =
             Inr (\<lparr> address = keyword, neighborhood = extractNeighborhood keyword,
                    loc_coordinates = Some (fst (addRandomOffset src rs n)),
                    hasSpecificLocation = True \<rparr>, n + 2)"
proof -
  from assms(2) have k: "keyword \<in> set locationKeywords"
    by (auto simp: extractLocationFromName_def find_Some_iff split: if_splits)
  with keywords_meaningful have m: "\<not> no_location_info keyword" "keyword \<noteq> []"
    unfolding list_all_iff by blast+
  from keyword_geocodes[OF k, of rs n] obtain src where
    src: "src \<in> snd ` set dmvLocations" "geocodeLocation keyword rs n = Inr (addRandomOffset src rs n)"
    by blast
  have "addRandomOffset src rs n = (fst (addRandomOffset src rs n), n + 2)"
    by (simp add: prod_eq_iff)
  with src(2) have g: "geocodeLocation keyword rs n = Inr (fst (addRandomOffset src rs n), n + 2)"
    by simp
  from assms m g have "extractLocation a rs n =
             Inr (\<lparr> address = keyword, neighborhood = extractNeighborhood keyword,
                    loc_coordinates = Some (fst (addRandomOffset src rs n)),
                    hasSpecificLocation = True \<rparr>, n + 2)"
    by (simp add: extractLocation_def or_else_def)
  with src(1) show ?thesis
    by blast
qed

lemma arlington_from_name:
  "extractLocationFromName (Some ''Arlington Young Professionals'') = Some ''arlington''"
  by code_simp

lemma arlington_exact:
  "(trim (toLowerCase ''arlington''), (js_number 38.8816, js_number (-77.0910))) \<in> set dmvLocations \<and>
   extractNeighborhood ''arlington'' = ''arlington'' \<and> \<not> no_location_info ''arlington''"
proof -
  have "trim (toLowerCase ''arlington'') = ''arlington''"
    and "extractNeighborhood ''arlington'' = ''arlington''"
    and "\<not> no_location_info ''arlington''"
    by code_simp+
  moreover have "(''arlington'', (js_number 38.8816, js_number (-77.0910))) \<in> set dmvLocations"
    by (simp add: dmvLocations_def)
  ultimately show ?thesis
    by simp
qed

text \<open>
  Claim C4, amended. \<open>extractLocation\<close> looks at the first non-empty candidate field only
  (the empty string when there is none). If it is no placeholder (not blank, not
  \<open>dmv area\<close> or \<open>contact for location\<close> in any case, not containing \<open>varies\<close>), it is the
  location: the result is what \<open>geocodeLocation\<close> makes of it. If it is a placeholder, the
  later candidates are not consulted: the location is the first keyword, in the order of
  \<open>locationKeywords\<close>, that occurs in the lower-cased group name, geocoded with one jitter; and
  when the name has no keyword the result is the record without coordinates and the random
  position is unchanged. In particular the name "Arlington Young Professionals" gives the
  location \<open>arlington\<close> with \<open>hasSpecificLocation\<close> true.
\<close>

theorem extractLocation_choice:
  "(let first = (case find truthy [location_type_preference a, location_attr a, contact_info a,
                                   church_center_url_location a, address_attr a, meeting_location a] of
                   Some (Some s) \<Rightarrow> s
                 | _ \<Rightarrow> [])
    in (\<not> no_location_info first \<longrightarrow>
          extractLocation a rs n =
            (case geocodeLocation first rs n of
               Inl e \<Rightarrow> Inl e
             | Inr (c, n') \<Rightarrow>
                 Inr (\<lparr> address = first, neighborhood = extractNeighborhood first,
                        loc_coordinates = Some c, hasSpecificLocation = True \<rparr>, n'))) \<and>
       (no_location_info first \<longrightarrow>
          (case extractLocationFromName (name_attr a) of
             Some keyword \<Rightarrow>
               (\<exists>src \<in> snd ` set dmvLocations.
                  extractLocation a rs n =
                    Inr (\<lparr> address = keyword, neighborhood = extractNeighborhood keyword,
                           loc_coordinates = Some (fst (addRandomOffset src rs n)),
                           hasSpecificLocation = True \<rparr>, n + 2))
           | None \<Rightarrow>
               extractLocation a rs n =
                 Inr (\<lparr> address = ''Contact for meeting location'', neighborhood = ''DMV Area'',
                        loc_coordinates = None, hasSpecificLocation = False \<rparr>, n))) \<and>
       (no_location_info first \<and> name_attr a = Some ''Arlington Young Professionals'' \<longrightarrow>
          extractLocation a rs n =
            Inr (\<lparr> address = ''arlington'', neighborhood = ''arlington'',
                   loc_coordinates = Some (fst (addRandomOffset (js_number 38.8816, js_number (-77.0910)) rs n)),
                   hasSpecificLocation = True \<rparr>, n + 2))) \<and>
   (no_location_info s \<longleftrightarrow>
      s = [] \<or> trim s = [] \<or> toLowerCase s = ''dmv area'' \<or>
      toLowerCase s = ''contact for location'' \<or> sublist ''varies'' (toLowerCase s)) \<and>
   (extractLocationFromName nm = Some keyword \<longleftrightarrow>
      (\<exists>t. nm = Some t \<and> t \<noteq> [] \<and>
         (\<exists>i < length locationKeywords. locationKeywords ! i = keyword \<and>
            sublist keyword (toLowerCase t) \<and>
            (\<forall>j < i. \<not> sublist (locationKeywords ! j) (toLowerCase t)))))"
proof -
  define first where "first = (case locationOptions a of [] \<Rightarrow> [] | s # rest \<Rightarrow> s)"
  have f: "(case find truthy [location_type_preference a, location_attr a, contact_info a,
                         church_center_url_location a, address_attr a, meeting_location a] of
              Some (Some s) \<Rightarrow> s
            | _ \<Rightarrow> []) = first"
    unfolding first_def locationOptions_def by (rule first_truthy[symmetric])
  have A: "extractLocation a rs n =
            (case geocodeLocation first rs n of
               Inl e \<Rightarrow> Inl e
             | Inr (c, n') \<Rightarrow>
                 Inr (\<lparr> address = first, neighborhood = extractNeighborhood first,
                        loc_coordinates = Some c, hasSpecificLocation = True \<rparr>, n'))"
    if "\<not> no_location_info first"
    using that unfolding extractLocation_def Let_def first_def by simp
  have B: "case extractLocationFromName (name_attr a) of
             Some keyword \<Rightarrow>
               (\<exists>src \<in> snd ` set dmvLocations.
                  extractLocation a rs n =
                    Inr (\<lparr> address = keyword, neighborhood = extractNeighborhood keyword,
                           loc_coordinates = Some (fst (addRandomOffset src rs n)),
                           hasSpecificLocation = True \<rparr>, n + 2))
           | None \<Rightarrow>
               extractLocation a rs n =
                 Inr (\<lparr> address = ''Contact for meeting location'', neighborhood = ''DMV Area'',
                        loc_coordinates = None, hasSpecificLocation = False \<rparr>, n)"
    if nf: "no_location_info first"
  proof (cases "extractLocationFromName (name_attr a)")
    case None
    with nf show ?thesis
      unfolding extractLocation_def Let_def first_def by (simp add: or_else_def)
  next
    case (Some keyword)
    with nf extractLocation_by_name[of a keyword rs n] show ?thesis
      unfolding first_def by simp
  qed
  have C: "extractLocation a rs n =
            Inr (\<lparr> address = ''arlington'', neighborhood = ''arlington'',
                   loc_coordinates = Some (fst (addRandomOffset (js_number 38.8816, js_number (-77.0910)) rs n)),
                   hasSpecificLocation = True \<rparr>, n + 2)"
    if nf: "no_location_info first \<and> name_attr a = Some ''Arlington Young Professionals''"
  proof -
    from nf arlington_from_name have k: "extractLocationFromName (name_attr a) = Some ''arlington''"
      by simp
    from arlington_exact geocodeLocation_exact[of "''arlington''" "(js_number 38.8816, js_number (-77.0910))" rs n]
    have "geocodeLocation ''arlington'' rs n = Inr (addRandomOffset (js_number 38.8816, js_number (-77.0910)) rs n)"
      by blast
    moreover have "addRandomOffset (js_number 38.8816, js_number (-77.0910)) rs n =
        (fst (addRandomOffset (js_number 38.8816, js_number (-77.0910)) rs n), n + 2)"
      by (simp add: prod_eq_iff)
    ultimately have g: "geocodeLocation ''arlington'' rs n =
        Inr (fst (addRandomOffset (js_number 38.8816, js_number (-77.0910)) rs n), n + 2)"
      by simp
    from arlington_exact have m: "extractNeighborhood ''arlington'' = ''arlington''"
      "\<not> no_location_info ''arlington''"
      by blast+
    from nf k g m show ?thesis
      unfolding extractLocation_def Let_def first_def[symmetric] by (simp add: or_else_def)
  qed
  have D: "no_location_info s \<longleftrightarrow>
      s = [] \<or> trim s = [] \<or> toLowerCase s = ''dmv area'' \<or>
      toLowerCase s = ''contact for location'' \<or> sublist ''varies'' (toLowerCase s)"
    by (simp add: no_location_info_def includes_sublist)
  from A B C D extractLocationFromName_iff[of nm keyword] show ?thesis
    unfolding Let_def f by blast
qed

lemma extractLocation_witness_evals:
  "no_location_info ''Contact for location''"
  "\<not> no_location_info ''Dupont Circle, DC''"
  "no_location_info ''DMV Area''"
  "extractLocationFromName (Some ''Book Club'') = None"
  "extractNeighborhood ''Dupont Circle, DC'' = ''Dupont Circle''"
  by code_simp+

lemma arlington_zero:
  "fl_add (js_number 38.8816) (- (of_int 4150517416584649 * 2 powi (- 60))) = js_number 38.8780"
  "fl_add (js_number (-77.0910)) (- (of_int 4150517416584649 * 2 powi (- 60))) = js_number (-77.0946)"
  by code_simp+

lemma arlington_jitter_eval:
  "fst (addRandomOffset (js_number 38.8816, js_number (-77.0910)) zero_draws 0) =
     (js_number 38.8780, js_number (-77.0946))"
  by (simp only: addRandomOffset_eq zero_draws_def jitter_offset_zero arlington_zero fst_conv)

theorem extractLocation_choice_witness:
  "no_location_info ''Contact for location'' \<and>
   name_attr arlington_name_attrs = Some ''Arlington Young Professionals'' \<and>
   extractLocation arlington_name_attrs zero_draws 0 =
     Inr (\<lparr> address = ''arlington'', neighborhood = ''arlington'',
            loc_coordinates = Some (js_number 38.8780, js_number (-77.0946)), hasSpecificLocation = True \<rparr>, 2) \<and>
   \<not> no_location_info ''Dupont Circle, DC'' \<and>
   extractLocation dupont_attrs zero_draws 0 =
     Inr (\<lparr> address = ''Dupont Circle, DC'', neighborhood = ''Dupont Circle'',
            loc_coordinates = Some (js_number 38.9061, js_number (-77.04010000000001)),
            hasSpecificLocation = True \<rparr>, 2) \<and>
   no_location_info ''DMV Area'' \<and>
   extractLocationFromName (name_attr dmv_then_dupont_attrs) = None \<and>
   extractLocation dmv_then_dupont_attrs zero_draws 0 =
     Inr (\<lparr> address = ''Contact for meeting location'', neighborhood = ''DMV Area'',
            loc_coordinates = None, hasSpecificLocation = False \<rparr>, 0)"
proof -
  note by_name = extractLocation_choice [of arlington_name_attrs zero_draws 0 "[]" None "[]"]
  note direct = extractLocation_choice [of dupont_attrs zero_draws 0 "[]" None "[]"]
  note no_place = extractLocation_choice [of dmv_then_dupont_attrs zero_draws 0 "[]" None "[]"]
  have f1: "(case find truthy [location_type_preference arlington_name_attrs,
                location_attr arlington_name_attrs, contact_info arlington_name_attrs,
                church_center_url_location arlington_name_attrs, address_attr arlington_name_attrs,
                meeting_location arlington_name_attrs] of
              Some (Some s) \<Rightarrow> s | _ \<Rightarrow> []) = ''Contact for location''"
    and n1: "name_attr arlington_name_attrs = Some ''Arlington Young Professionals''"
    by (simp_all add: arlington_name_attrs_def empty_attrs_def truthy_def)
  have f2: "(case find truthy [location_type_preference dupont_attrs,
                location_attr dupont_attrs, contact_info dupont_attrs,
                church_center_url_location dupont_attrs, address_attr dupont_attrs,
                meeting_location dupont_attrs] of
              Some (Some s) \<Rightarrow> s | _ \<Rightarrow> []) = ''Dupont Circle, DC''"
    by (simp add: dupont_attrs_def empty_attrs_def truthy_def)
  have f3: "(case find truthy [location_type_preference dmv_then_dupont_attrs,
                location_attr dmv_then_dupont_attrs, contact_info dmv_then_dupont_attrs,
                church_center_url_location dmv_then_dupont_attrs, address_attr dmv_then_dupont_attrs,
                meeting_location dmv_then_dupont_attrs] of
              Some (Some s) \<Rightarrow> s | _ \<Rightarrow> []) = ''DMV Area''"
    and n3: "name_attr dmv_then_dupont_attrs = Some ''Book Club''"
    by (simp_all add: dmv_then_dupont_attrs_def empty_attrs_def truthy_def)
  from by_name extractLocation_witness_evals(1) n1
  have "extractLocation arlington_name_attrs zero_draws 0 =
     Inr (\<lparr> address = ''arlington'', neighborhood = ''arlington'',
            loc_coordinates = Some (fst (addRandomOffset (js_number 38.8816, js_number (-77.0910)) zero_draws 0)),
            hasSpecificLocation = True \<rparr>, 0 + 2)"
    unfolding Let_def f1 by blast
  then have 1: "extractLocation arlington_name_attrs zero_draws 0 =
     Inr (\<lparr> address = ''arlington'', neighborhood = ''arlington'',
            loc_coordinates = Some (js_number 38.8780, js_number (-77.0946)), hasSpecificLocation = True \<rparr>, 2)"
    by (simp only: arlington_jitter_eval) simp
  from direct extractLocation_witness_evals(2)
  have "extractLocation dupont_attrs zero_draws 0 =
            (case geocodeLocation ''Dupont Circle, DC'' zero_draws 0 of
               Inl e \<Rightarrow> Inl e
             | Inr (c, n') \<Rightarrow>
                 Inr (\<lparr> address = ''Dupont Circle, DC'',
                        neighborhood = extractNeighborhood ''Dupont Circle, DC'',
                        loc_coordinates = Some c, hasSpecificLocation = True \<rparr>, n'))"
    unfolding Let_def f2 by blast
  then have 2: "extractLocation dupont_attrs zero_draws 0 =
     Inr (\<lparr> address = ''Dupont Circle, DC'', neighborhood = ''Dupont Circle'',
            loc_coordinates = Some (js_number 38.9061, js_number (-77.04010000000001)),
            hasSpecificLocation = True \<rparr>, 2)"
    by (simp only: geocode_dupont_eval extractLocation_witness_evals(5) sum.case prod.case)
  have k3: "extractLocationFromName (name_attr dmv_then_dupont_attrs) = None"
    by (simp only: n3 extractLocation_witness_evals(4))
  from no_place extractLocation_witness_evals(3)
  have "case extractLocationFromName (name_attr dmv_then_dupont_attrs) of
             Some keyword \<Rightarrow>
               (\<exists>src \<in> snd ` set dmvLocations.
                  extractLocation dmv_then_dupont_attrs zero_draws 0 =
                    Inr (\<lparr> address = keyword, neighborhood = extractNeighborhood keyword,
                           loc_coordinates = Some (fst (addRandomOffset src zero_draws 0)),
                           hasSpecificLocation = True \<rparr>, 0 + 2))
           | None \<Rightarrow>
               extractLocation dmv_then_dupont_attrs zero_draws 0 =
                 Inr (\<lparr> address = ''Contact for meeting location'', neighborhood = ''DMV Area'',
                        loc_coordinates = None, hasSpecificLocation = False \<rparr>, 0)"
    unfolding Let_def f3 by blast
  then have 3: "extractLocation dmv_then_dupont_attrs zero_draws 0 =
                 Inr (\<lparr> address = ''Contact for meeting location'', neighborhood = ''DMV Area'',
                        loc_coordinates = None, hasSpecificLocation = False \<rparr>, 0)"
    by (simp only: k3 option.case)
  from 1 2 3 k3 n1 extractLocation_witness_evals(1,2,3) show ?thesis
    by blast
qed

end
